theory Spec2Isabelle
  imports Main "HOL-Library.AList" "HOL-Library.Sublist"
begin

section \<open>Data model (types/index.d.ts)\<close>

text \<open>
  The declared types of the repository. \<open>Platform\<close> is the closed union
  \<^verbatim>\<open>"android" | "ios"\<close>. JavaScript numbers are modelled as \<open>int\<close>, an optional
  field (\<^verbatim>\<open>column?: number\<close>) as an \<open>option\<close>. The objects \<^verbatim>\<open>Stores\<close> and \<^verbatim>\<open>Assets\<close>
  are string-keyed dictionaries; they are association lists of their own keys here (a new
  key goes to the end), written with \<open>AList.update\<close> and \<open>AList.delete\<close>; reading a
  property also sees what the object inherits (\<open>getProperty\<close> below). JavaScript enumerates keys that look like integers before the others;
  nothing below depends on the order of the keys.
\<close>

datatype Platform = Android | Ios

record Bundle =
  bundle_id :: string
  platform :: Platform
  sourceMap :: string
  timestamp :: int

record Store =
  accessKey :: string
  bundles :: "Bundle list"
  store_id :: string

text \<open>The value stored under an asset hash is always the empty object \<^verbatim>\<open>{}\<close>.\<close>

datatype AssetEntry = EmptyObject

type_synonym Assets = "(string \<times> AssetEntry) list"
type_synonym Stores = "(string \<times> Store) list"

record Db =
  assets :: Assets
  stores :: Stores

section \<open>Errors and effects\<close>

text \<open>
  Every \<^verbatim>\<open>throw new Error(...)\<close> of the source is a constructor; \<open>TypeError\<close> is what
  the JavaScript runtime throws when a property of \<^verbatim>\<open>undefined\<close> is read;
  \<open>LibraryError\<close> is an exception raised inside a library call (source-map, yauzl).
\<close>

datatype error =
    StoreDoesNotExist string
  | StoreAlreadyExist string
  | BundleDoesNotExist string string
  | NoBundleInStore string Platform
  | BundleUrlDoesNotMatch string
  | TypeError
  | LibraryError

text \<open>
  A file path is kept as the pair that \<^verbatim>\<open>path.join(directory, name)\<close> is called with.
\<close>

datatype path = Path string string

text \<open>
  The state a \<^verbatim>\<open>BundleStoreServer\<close> works on: the in-memory database \<^verbatim>\<open>this.db\<close> of its
  \<^verbatim>\<open>BundleStoreDb\<close>, the content of the file at \<^verbatim>\<open>dbPath\<close>, and the files that exist
  (bundles, source maps, assets, uploaded archives). A method is a function from the state
  to an outcome and the state it leaves: an exception does not undo what was done before it.
\<close>

record state =
  db :: Db
  dbFile :: string
  files :: "path set"

type_synonym 'a io = "state \<Rightarrow> (error + 'a) \<times> state"

definition return :: "'a \<Rightarrow> 'a io" where
  "return x = (\<lambda>s. (Inr x, s))"

definition throw :: "error \<Rightarrow> 'a io" where
  "throw e = (\<lambda>s. (Inl e, s))"

definition andThen :: "'a io \<Rightarrow> ('a \<Rightarrow> 'b io) \<Rightarrow> 'b io" where
  "andThen m f = (\<lambda>s. case m s of (Inl e, s') \<Rightarrow> (Inl e, s') | (Inr x, s') \<Rightarrow> f x s')"

definition getDb :: "Db io" where
  "getDb = (\<lambda>s. (Inr (db s), s))"

definition setDb :: "Db \<Rightarrow> unit io" where
  "setDb d = (\<lambda>s. (Inr (), s\<lparr>db := d\<rparr>))"

section \<open>BundleStoreDb.ts\<close>

text \<open>
  \<^verbatim>\<open>JSON.stringify\<close> is a parameter \<open>stringify\<close> of every method that writes: the results
  hold for any serialisation function. \<^verbatim>\<open>fs.writeFileSync\<close> is taken to succeed. The debug
  logger has no effect on the state and is left out.
\<close>

definition write_db :: "(Db \<Rightarrow> string) \<Rightarrow> unit io" where
  "write_db stringify = (\<lambda>s. (Inr (), s\<lparr>dbFile := stringify (db s)\<rparr>))"

text \<open>
  Reading a property of a dictionary object, \<^verbatim>\<open>obj[key]\<close>: the value of the object's own
  key, or, when it has none, what the object inherits from \<^verbatim>\<open>Object.prototype\<close> under that
  name (the database comes from \<^verbatim>\<open>JSON.parse\<close> or from an object literal), or
  \<^verbatim>\<open>undefined\<close>. The inherited values are functions, and \<^verbatim>\<open>Object.prototype\<close> itself under
  \<^verbatim>\<open>__proto__\<close>: all truthy, none with a property \<^verbatim>\<open>bundles\<close>, \<^verbatim>\<open>accessKey\<close> or \<^verbatim>\<open>id\<close>.
\<close>

definition inheritedNames :: "string list" where
  "inheritedNames =
     [''constructor'', ''__defineGetter__'', ''__defineSetter__'', ''hasOwnProperty'',
      ''__lookupGetter__'', ''__lookupSetter__'', ''isPrototypeOf'', ''propertyIsEnumerable'',
      ''toString'', ''valueOf'', ''__proto__'', ''toLocaleString'']"

datatype 'a property = Own 'a | Inherited | Undefined

definition getProperty :: "(string \<times> 'a) list \<Rightarrow> string \<Rightarrow> 'a property" where
  "getProperty obj key =
     (case map_of obj key of
        Some v \<Rightarrow> Own v
      | None \<Rightarrow> if key \<in> set inheritedNames then Inherited else Undefined)"

text \<open>\<^verbatim>\<open>!!this.db.stores[storeId]\<close>: false only when the property is \<^verbatim>\<open>undefined\<close>.\<close>

definition hasStore :: "string \<Rightarrow> Db \<Rightarrow> bool" where
  "hasStore sid d = (getProperty (stores d) sid \<noteq> Undefined)"

definition throwIfStoreDoesNotExist :: "string \<Rightarrow> unit io" where
  "throwIfStoreDoesNotExist sid =
     andThen getDb (\<lambda>d. if \<not> hasStore sid d then throw (StoreDoesNotExist sid) else return ())"

definition throwIfStoreExist :: "string \<Rightarrow> unit io" where
  "throwIfStoreExist sid =
     andThen getDb (\<lambda>d. if hasStore sid d then throw (StoreAlreadyExist sid) else return ())"

text \<open>
  \<^verbatim>\<open>this.db.stores[storeId]\<close>, and \<^verbatim>\<open>this.db.stores[storeId].bundles\<close>: a \<open>TypeError\<close>
  when the store is \<^verbatim>\<open>undefined\<close>, \<^verbatim>\<open>undefined\<close> (\<open>None\<close>) when it is an inherited value.
\<close>

definition storeOf :: "string \<Rightarrow> Store property io" where
  "storeOf sid = andThen getDb (\<lambda>d. return (getProperty (stores d) sid))"

definition bundlesOf :: "string \<Rightarrow> Bundle list option io" where
  "bundlesOf sid =
     andThen (storeOf sid) (\<lambda>store.
       case store of
         Undefined \<Rightarrow> throw TypeError
       | Inherited \<Rightarrow> return None
       | Own st \<Rightarrow> return (Some (bundles st)))"

text \<open>The array of the store under the own key \<open>sid\<close> after a change made in place.\<close>

definition setBundles :: "string \<Rightarrow> Bundle list \<Rightarrow> unit io" where
  "setBundles sid bs =
     andThen getDb (\<lambda>d. case map_of (stores d) sid of
        None \<Rightarrow> throw TypeError
      | Some st \<Rightarrow> setDb (d\<lparr>stores := AList.update sid (st\<lparr>bundles := bs\<rparr>) (stores d)\<rparr>))"

text \<open>lodash: \<^verbatim>\<open>_.some\<close>, \<^verbatim>\<open>_.find\<close>, \<^verbatim>\<open>_.filter\<close>, \<^verbatim>\<open>_.last\<close> (\<^verbatim>\<open>undefined\<close> on an empty
  array), \<^verbatim>\<open>_.remove\<close> (what stays in the array) and \<^verbatim>\<open>_.difference\<close>. Given \<^verbatim>\<open>undefined\<close>
  for the collection, they work as on an empty array (\<open>collection\<close>).\<close>

definition collection :: "'a list option \<Rightarrow> 'a list" where
  "collection xs = (case xs of None \<Rightarrow> [] | Some ys \<Rightarrow> ys)"

definition lodash_some :: "'a list \<Rightarrow> ('a \<Rightarrow> bool) \<Rightarrow> bool" where
  "lodash_some xs p = list_ex p xs"

definition lodash_find :: "'a list \<Rightarrow> ('a \<Rightarrow> bool) \<Rightarrow> 'a option" where
  "lodash_find xs p = find p xs"

definition lodash_filter :: "'a list \<Rightarrow> ('a \<Rightarrow> bool) \<Rightarrow> 'a list" where
  "lodash_filter xs p = filter p xs"

definition lodash_last :: "'a list \<Rightarrow> 'a option" where
  "lodash_last xs = (if xs = [] then None else Some (last xs))"

definition lodash_remove :: "'a list \<Rightarrow> ('a \<Rightarrow> bool) \<Rightarrow> 'a list" where
  "lodash_remove xs p = filter (\<lambda>x. \<not> p x) xs"

definition lodash_difference :: "'a list \<Rightarrow> 'a list \<Rightarrow> 'a list" where
  "lodash_difference xs ys = filter (\<lambda>x. x \<notin> set ys) xs"

text \<open>\<^verbatim>\<open>bundles.length\<close> of \<^verbatim>\<open>undefined\<close> is a \<open>TypeError\<close>.\<close>

definition isStoreEmpty :: "Platform option \<Rightarrow> string \<Rightarrow> bool io" where
  "isStoreEmpty p sid =
     andThen (throwIfStoreDoesNotExist sid) (\<lambda>_.
     andThen (bundlesOf sid) (\<lambda>bs.
       case bs of
         None \<Rightarrow> throw TypeError
       | Some bs \<Rightarrow>
           return (if length bs = 0 then True
                   else (case p of
                           Some pl \<Rightarrow> \<not> lodash_some bs (\<lambda>b. platform b = pl)
                         | None \<Rightarrow> False))))"

definition hasBundle :: "string \<Rightarrow> string \<Rightarrow> bool io" where
  "hasBundle bid sid =
     andThen (throwIfStoreDoesNotExist sid) (\<lambda>_.
     andThen (bundlesOf sid) (\<lambda>bs.
       return (lodash_some (collection bs) (\<lambda>b. bundle_id b = bid))))"

definition getBundle :: "string \<Rightarrow> string \<Rightarrow> Bundle io" where
  "getBundle bid sid =
     andThen (throwIfStoreDoesNotExist sid) (\<lambda>_.
     andThen (bundlesOf sid) (\<lambda>bs.
       case lodash_find (collection bs) (\<lambda>b. bundle_id b = bid) of
         None \<Rightarrow> throw (BundleDoesNotExist bid sid)
       | Some b \<Rightarrow> return b))"

text \<open>The result is \<^verbatim>\<open>_.last\<close> of the filtered array, which is \<^verbatim>\<open>undefined\<close> (\<open>None\<close>)
  when nothing passes the filter.\<close>

definition getLatestBundle :: "Platform \<Rightarrow> string \<Rightarrow> Bundle option io" where
  "getLatestBundle p sid =
     andThen (throwIfStoreDoesNotExist sid) (\<lambda>_.
     andThen (isStoreEmpty (Some p) sid) (\<lambda>empty.
       if empty then throw (NoBundleInStore sid p)
       else andThen (bundlesOf sid) (\<lambda>bs.
              return (lodash_last (lodash_filter (collection bs) (\<lambda>b. platform b = p))))))"

text \<open>\<^verbatim>\<open>bundles.push\<close> on \<^verbatim>\<open>undefined\<close> is a \<open>TypeError\<close>.\<close>

definition addBundle :: "(Db \<Rightarrow> string) \<Rightarrow> Bundle \<Rightarrow> string \<Rightarrow> unit io" where
  "addBundle stringify bundle sid =
     andThen (throwIfStoreDoesNotExist sid) (\<lambda>_.
     andThen (bundlesOf sid) (\<lambda>bs.
     andThen (case bs of
                None \<Rightarrow> throw TypeError
              | Some bs \<Rightarrow> setBundles sid (bs @ [bundle])) (\<lambda>_.
       write_db stringify)))"

definition delBundle :: "(Db \<Rightarrow> string) \<Rightarrow> string \<Rightarrow> string \<Rightarrow> Bundle io" where
  "delBundle stringify bid sid =
     andThen (throwIfStoreDoesNotExist sid) (\<lambda>_.
     andThen (getBundle bid sid) (\<lambda>bundle.
     andThen (bundlesOf sid) (\<lambda>bs.
     andThen (case bs of
                None \<Rightarrow> return ()
              | Some bs \<Rightarrow> setBundles sid (lodash_remove bs (\<lambda>b. bundle_id b = bid))) (\<lambda>_.
     andThen (write_db stringify) (\<lambda>_.
       return bundle)))))"

text \<open>\<^verbatim>\<open>uuidv4()\<close> is the argument \<open>uuid\<close>.\<close>

definition createStore :: "(Db \<Rightarrow> string) \<Rightarrow> string \<Rightarrow> string \<Rightarrow> Store io" where
  "createStore stringify uuid sid =
     andThen (throwIfStoreExist sid) (\<lambda>_.
     andThen getDb (\<lambda>d.
       let store = \<lparr>accessKey = uuid, bundles = [], store_id = sid\<rparr> in
       andThen (setDb (d\<lparr>stores := AList.update sid store (stores d)\<rparr>)) (\<lambda>_.
       andThen (write_db stringify) (\<lambda>_.
         return store))))"

text \<open>What \<open>getStore\<close> and \<open>delStore\<close> return is the property as it was read, a store or
  an inherited value. \<^verbatim>\<open>delete\<close> removes an own key only.\<close>

definition getStore :: "string \<Rightarrow> Store property io" where
  "getStore sid = andThen (throwIfStoreDoesNotExist sid) (\<lambda>_. storeOf sid)"

definition delStore :: "(Db \<Rightarrow> string) \<Rightarrow> string \<Rightarrow> Store property io" where
  "delStore stringify sid =
     andThen (throwIfStoreDoesNotExist sid) (\<lambda>_.
     andThen (storeOf sid) (\<lambda>store.
     andThen getDb (\<lambda>d.
     andThen (setDb (d\<lparr>stores := AList.delete sid (stores d)\<rparr>)) (\<lambda>_.
     andThen (write_db stringify) (\<lambda>_.
       return store)))))"

definition getStores :: "Stores io" where
  "getStores = andThen getDb (\<lambda>d. return (stores d))"

definition getAssets :: "Assets io" where
  "getAssets = andThen getDb (\<lambda>d. return (assets d))"

text \<open>\<^verbatim>\<open>Object.assign(target, source)\<close> copies the keys of \<open>source\<close> in their order.\<close>

definition Object_assign :: "('k \<times> 'v) list \<Rightarrow> ('k \<times> 'v) list \<Rightarrow> ('k \<times> 'v) list" where
  "Object_assign target source = foldl (\<lambda>t (k, v). AList.update k v t) target source"

definition Object_keys :: "('k \<times> 'v) list \<Rightarrow> 'k list" where
  "Object_keys obj = map fst obj"

text \<open>\<^verbatim>\<open>createdAssets[asset] = {}\<close> adds or overwrites the key; for the name \<^verbatim>\<open>__proto__\<close> it
  sets the prototype of the object instead and adds no key.\<close>

definition createAssets :: "(Db \<Rightarrow> string) \<Rightarrow> string list \<Rightarrow> Assets io" where
  "createAssets stringify as =
     (let createdAssets =
            foldl (\<lambda>c a. if a = ''__proto__'' then c else AList.update a EmptyObject c) [] as in
      andThen getDb (\<lambda>d.
      andThen (setDb (d\<lparr>assets := Object_assign (assets d) createdAssets\<rparr>)) (\<lambda>_.
      andThen (write_db stringify) (\<lambda>_.
        return createdAssets))))"

section \<open>BundleStoreServer.ts\<close>

subsection \<open>Configuration\<close>

record BundleStoreServerPaths =
  assets_dir :: string
  bundles_dir :: string
  db_file :: string
  sourcemaps_dir :: string

record BundleStoreServerUserConfig =
  user_dbSeed :: "Db option"
  user_host :: "string option"
  user_maxBundles :: "int option"
  user_paths :: "BundleStoreServerPaths option"
  user_port :: "int option"
  user_rootPath :: "string option"

record BundleStoreServerConfig =
  dbSeed :: "Db option"
  host :: "string option"
  maxBundles :: int
  paths :: BundleStoreServerPaths
  port :: int

text \<open>
  \<^verbatim>\<open>x || d\<close> on an optional number: \<^verbatim>\<open>undefined\<close> and \<open>0\<close> are falsy. A string is truthy
  when it is present and not empty.
\<close>

definition js_or :: "int option \<Rightarrow> int \<Rightarrow> int" where
  "js_or x d = (case x of None \<Rightarrow> d | Some n \<Rightarrow> if n = 0 then d else n)"

definition truthy_number :: "int option \<Rightarrow> bool" where
  "truthy_number x = (case x of None \<Rightarrow> False | Some n \<Rightarrow> n \<noteq> 0)"

definition truthy_string :: "string option \<Rightarrow> bool" where
  "truthy_string x = (case x of None \<Rightarrow> False | Some str \<Rightarrow> str \<noteq> [])"

text \<open>\<^verbatim>\<open>path.join\<close> and \<^verbatim>\<open>process.cwd()\<close> are the parameters \<open>join\<close> and \<open>cwd\<close>.\<close>

definition normalizeUserConfig ::
  "(string \<Rightarrow> string \<Rightarrow> string) \<Rightarrow> string \<Rightarrow> BundleStoreServerUserConfig \<Rightarrow> BundleStoreServerConfig" where
  "normalizeUserConfig join cwd config =
     \<lparr>dbSeed = user_dbSeed config,
      host = user_host config,
      maxBundles = js_or (user_maxBundles config) (- 1),
      paths = (case user_paths config of
                 Some ps \<Rightarrow> ps
               | None \<Rightarrow>
                   if truthy_string (user_rootPath config)
                   then \<lparr>assets_dir = join (the (user_rootPath config)) ''assets'',
                         bundles_dir = join (the (user_rootPath config)) ''bundles'',
                         db_file = join (the (user_rootPath config)) ''db.json'',
                         sourcemaps_dir = join (the (user_rootPath config)) ''sourcemaps''\<rparr>
                   else \<lparr>assets_dir = join cwd ''assets'',
                         bundles_dir = join cwd ''bundles'',
                         db_file = join cwd ''db.json'',
                         sourcemaps_dir = join cwd ''sourcemaps''\<rparr>),
      port = js_or (user_port config) 3000\<rparr>"

definition getPathToBundle :: "BundleStoreServerConfig \<Rightarrow> string \<Rightarrow> path" where
  "getPathToBundle cfg bid = Path (bundles_dir (paths cfg)) bid"

definition getPathToSourceMap :: "BundleStoreServerConfig \<Rightarrow> string \<Rightarrow> path" where
  "getPathToSourceMap cfg sm = Path (sourcemaps_dir (paths cfg)) sm"

subsection \<open>extractSegmentsFromBundleUrl\<close>

text \<open>
  The regular expression \<^verbatim>\<open>/bundles\/([^\/]+)\/([^\/]+)\/([^\/]+)\//\<close>: \<open>segment\<close> reads one
  \<^verbatim>\<open>([^\/]+)\/\<close>, \<open>matchHere\<close> matches at the start of its argument, \<open>regexExec\<close> is the
  leftmost match.
\<close>

definition segment :: "string \<Rightarrow> (string \<times> string) option" where
  "segment str =
     (let seg = takeWhile (\<lambda>c. c \<noteq> CHR ''/'') str;
          rest = dropWhile (\<lambda>c. c \<noteq> CHR ''/'') str
      in if seg = [] \<or> rest = [] then None else Some (seg, tl rest))"

definition matchHere :: "string \<Rightarrow> (string \<times> string \<times> string) option" where
  "matchHere str =
     (if prefix ''bundles/'' str
      then (case segment (drop 8 str) of
              None \<Rightarrow> None
            | Some (g1, r1) \<Rightarrow>
                (case segment r1 of
                   None \<Rightarrow> None
                 | Some (g2, r2) \<Rightarrow>
                     (case segment r2 of
                        None \<Rightarrow> None
                      | Some (g3, r3) \<Rightarrow> Some (g1, g2, g3))))
      else None)"

fun regexExec :: "string \<Rightarrow> (string \<times> string \<times> string) option" where
  "regexExec [] = matchHere []"
| "regexExec (c # cs) =
     (case matchHere (c # cs) of Some m \<Rightarrow> Some m | None \<Rightarrow> regexExec cs)"

record Segments =
  seg_bundleId :: string
  seg_platform :: string
  seg_storeId :: string

definition extractSegmentsFromBundleUrl :: "string \<Rightarrow> error + Segments" where
  "extractSegmentsFromBundleUrl bundleUrl =
     (case regexExec bundleUrl of
        None \<Rightarrow> Inl (BundleUrlDoesNotMatch bundleUrl)
      | Some (g1, g2, g3) \<Rightarrow>
          Inr \<lparr>seg_bundleId = g3, seg_platform = g2, seg_storeId = g1\<rparr>)"

subsection \<open>symbolicate\<close>

text \<open>\<^verbatim>\<open>arguments?: any[]\<close> has elements of an arbitrary type \<open>'a\<close>; the field \<^verbatim>\<open>file\<close> is
  \<open>frame_file\<close>.\<close>

record 'a StackFrame =
  arguments :: "'a list option"
  column :: "int option"
  frame_file :: "string option"
  lineNumber :: "int option"
  methodName :: string

text \<open>
  What \<^verbatim>\<open>consumer.originalPositionFor\<close> returns; a field is \<^verbatim>\<open>null\<close> (\<open>None\<close>) when the
  map has no mapping. The consumer is its lookup function of line and column, which may
  throw. \<^verbatim>\<open>new SourceMapConsumer(JSON.parse(sourceMap))\<close> is the parameter \<open>newConsumer\<close>,
  which may throw as well. \<^verbatim>\<open>consumer.destroy()\<close> frees the consumer and changes nothing
  that is modelled.
\<close>

record OriginalPosition =
  pos_source :: "string option"
  pos_line :: "int option"
  pos_column :: "int option"
  pos_name :: "string option"

type_synonym SourceMapConsumer = "int \<Rightarrow> int \<Rightarrow> error + OriginalPosition"

definition startsWith :: "string \<Rightarrow> string \<Rightarrow> bool" where
  "startsWith str p = prefix p str"

text \<open>\<^verbatim>\<open>Array.prototype.map\<close> with a callback that may throw: the first exception ends it.\<close>

fun mapE :: "('x \<Rightarrow> error + 'y) \<Rightarrow> 'x list \<Rightarrow> error + 'y list" where
  "mapE f [] = Inr []"
| "mapE f (x # xs) =
     (case f x of
        Inl e \<Rightarrow> Inl e
      | Inr y \<Rightarrow> (case mapE f xs of Inl e \<Rightarrow> Inl e | Inr ys \<Rightarrow> Inr (y # ys)))"

definition symbolicateFrame :: "SourceMapConsumer \<Rightarrow> 'a StackFrame \<Rightarrow> error + 'a StackFrame" where
  "symbolicateFrame consumer frame =
     (if truthy_string (frame_file frame) \<and> startsWith (the (frame_file frame)) ''http''
         \<and> truthy_number (column frame) \<and> truthy_number (lineNumber frame)
      then (case consumer (the (lineNumber frame)) (the (column frame)) of
              Inl e \<Rightarrow> Inl e
            | Inr originalPos \<Rightarrow>
                Inr \<lparr>arguments = arguments frame,
                     column = pos_column originalPos,
                     frame_file = pos_source originalPos,
                     lineNumber = pos_line originalPos,
                     methodName = methodName frame\<rparr>)
      else Inr frame)"

definition symbolicate ::
  "(string \<Rightarrow> error + SourceMapConsumer) \<Rightarrow> 'a StackFrame list \<Rightarrow> string \<Rightarrow> error + 'a StackFrame list" where
  "symbolicate newConsumer stack sourceMapText =
     (case newConsumer sourceMapText of
        Inl e \<Rightarrow> Inl e
      | Inr consumer \<Rightarrow> mapE (symbolicateFrame consumer) stack)"

subsection \<open>POST /symbolicate: the bundle reference\<close>

text \<open>
  The first statements of the handler (lines 342 to 347), on whose success the rest
  (\<^verbatim>\<open>getSourceMap\<close>, \<^verbatim>\<open>symbolicate\<close>, the response) depends. The callback of \<^verbatim>\<open>_.find\<close> is
  \<^verbatim>\<open>frame.file.startsWith("http")\<close>, a \<open>TypeError\<close> on a frame without \<^verbatim>\<open>file\<close>;
  \<^verbatim>\<open>.file\<close> of the result is a \<open>TypeError\<close> when nothing was found. A regular expression
  applied to \<^verbatim>\<open>undefined\<close> reads the string \<^verbatim>\<open>undefined\<close>.
\<close>

fun findE :: "('x \<Rightarrow> error + bool) \<Rightarrow> 'x list \<Rightarrow> error + 'x option" where
  "findE p [] = Inr None"
| "findE p (x # xs) =
     (case p x of Inl e \<Rightarrow> Inl e | Inr True \<Rightarrow> Inr (Some x) | Inr False \<Rightarrow> findE p xs)"

definition fileStartsWithHttp :: "'a StackFrame \<Rightarrow> error + bool" where
  "fileStartsWithHttp frame =
     (case frame_file frame of None \<Rightarrow> Inl TypeError | Some f \<Rightarrow> Inr (startsWith f ''http''))"

definition bundleUrlOfStack :: "'a StackFrame list \<Rightarrow> error + string option" where
  "bundleUrlOfStack stack =
     (case findE fileStartsWithHttp stack of
        Inl e \<Rightarrow> Inl e
      | Inr None \<Rightarrow> Inl TypeError
      | Inr (Some frame) \<Rightarrow> Inr (frame_file frame))"

definition bundleReferenceOfStack :: "'a StackFrame list \<Rightarrow> error + Segments" where
  "bundleReferenceOfStack stack =
     (case bundleUrlOfStack stack of
        Inl e \<Rightarrow> Inl e
      | Inr None \<Rightarrow> extractSegmentsFromBundleUrl ''undefined''
      | Inr (Some bundleUrl) \<Rightarrow> extractSegmentsFromBundleUrl bundleUrl)"

subsection \<open>addBundleToStore and POST /bundles/:storeId/:platform\<close>

text \<open>\<^verbatim>\<open>shell.rm\<close> removes the files it is given and does not throw on a missing one.\<close>

definition shell_rm :: "path list \<Rightarrow> unit io" where
  "shell_rm ps = (\<lambda>s. (Inr (), s\<lparr>files := files s - set ps\<rparr>))"

definition writeFile :: "path \<Rightarrow> unit io" where
  "writeFile p = (\<lambda>s. (Inr (), s\<lparr>files := insert p (files s)\<rparr>))"

text \<open>
  \<^verbatim>\<open>store.bundles[0]\<close> of an empty array is \<^verbatim>\<open>undefined\<close>, and reading its \<^verbatim>\<open>id\<close> a
  \<open>TypeError\<close>.
\<close>

definition addBundleToStore ::
  "BundleStoreServerConfig \<Rightarrow> (Db \<Rightarrow> string) \<Rightarrow> Store \<Rightarrow> Bundle \<Rightarrow> Bundle io" where
  "addBundleToStore cfg stringify store bundle =
     andThen
       (if maxBundles cfg \<noteq> - 1 \<and> int (length (bundles store)) \<ge> maxBundles cfg
        then (case bundles store of
                [] \<Rightarrow> throw TypeError
              | oldestBundle # _ \<Rightarrow>
                  andThen (shell_rm [getPathToBundle cfg (bundle_id oldestBundle),
                                     getPathToSourceMap cfg (sourceMap oldestBundle)]) (\<lambda>_.
                  andThen (delBundle stringify (bundle_id oldestBundle) (store_id store)) (\<lambda>_.
                    return ())))
        else return ())
       (\<lambda>_.
     andThen (addBundle stringify bundle (store_id store)) (\<lambda>_.
       return bundle))"

text \<open>
  A request to the route: its parameters, the access key header, whether the multipart body
  has a \<^verbatim>\<open>bundle\<close> and a \<^verbatim>\<open>sourcemap\<close> file, and what \<^verbatim>\<open>uuidv4()\<close> (twice) and
  \<^verbatim>\<open>Date.now()\<close> return while it is served.
\<close>

record BundleUpload =
  req_storeId :: string
  req_platform :: Platform
  req_accessKey :: "string option"
  req_bundle :: bool
  req_sourcemap :: bool
  uuid_bundle :: string
  uuid_sourcemap :: string
  date_now :: int

datatype response = Status201 Bundle | Status400 | Status403 | Status404

text \<open>multer's disk storage: each file of the request goes to its directory under its
  generated name.\<close>

definition upload :: "BundleStoreServerConfig \<Rightarrow> BundleUpload \<Rightarrow> unit io" where
  "upload cfg req =
     andThen (if req_bundle req
              then writeFile (Path (bundles_dir (paths cfg)) (uuid_bundle req)) else return ()) (\<lambda>_.
             (if req_sourcemap req
              then writeFile (Path (sourcemaps_dir (paths cfg)) (uuid_sourcemap req)) else return ()))"

definition bundleOf :: "BundleUpload \<Rightarrow> Bundle" where
  "bundleOf req =
     \<lparr>bundle_id = uuid_bundle req, platform = req_platform req,
      sourceMap = uuid_sourcemap req, timestamp = date_now req\<rparr>"

text \<open>The middlewares \<^verbatim>\<open>addStoreToReq\<close>, \<^verbatim>\<open>validateStoreAccessKey\<close>,
  \<^verbatim>\<open>addFileIdsToReqParams\<close> and the upload, then the handler. \<^verbatim>\<open>req.store.accessKey\<close> of
  an inherited value is \<^verbatim>\<open>undefined\<close>, which differs from every header.\<close>

definition postBundle ::
  "BundleStoreServerConfig \<Rightarrow> (Db \<Rightarrow> string) \<Rightarrow> BundleUpload \<Rightarrow> response io" where
  "postBundle cfg stringify req =
     andThen getDb (\<lambda>d.
       if \<not> hasStore (req_storeId req) d then return Status404
       else
         andThen (getStore (req_storeId req)) (\<lambda>store.
           if \<not> truthy_string (req_accessKey req) then return Status400
           else
             (case store of
                Undefined \<Rightarrow> throw TypeError
              | Inherited \<Rightarrow> return Status403
              | Own st \<Rightarrow>
                  if accessKey st \<noteq> the (req_accessKey req) then return Status403
                  else
                    andThen (upload cfg req) (\<lambda>_.
                    andThen (addBundleToStore cfg stringify st (bundleOf req)) (\<lambda>bundle.
                      return (Status201 bundle))))))"

text \<open>Requests served one after the other.\<close>

fun postBundles ::
  "BundleStoreServerConfig \<Rightarrow> (Db \<Rightarrow> string) \<Rightarrow> BundleUpload list \<Rightarrow> response list io" where
  "postBundles cfg stringify [] = return []"
| "postBundles cfg stringify (req # reqs) =
     andThen (postBundle cfg stringify req) (\<lambda>res.
     andThen (postBundles cfg stringify reqs) (\<lambda>ress.
       return (res # ress)))"

subsection \<open>POST /assets/delta\<close>

definition assetsDelta :: "string list \<Rightarrow> string list io" where
  "assetsDelta candidates =
     andThen getAssets (\<lambda>known.
       return (lodash_difference candidates (Object_keys known)))"

subsection \<open>unzipAssets\<close>

text \<open>
  \<^verbatim>\<open>path.dirname\<close> of Node.js (the POSIX variant): the loop runs \<open>i\<close> from the last
  index down to 1 and stops at the first slash that follows a character that is not one.
\<close>

fun dirname_scan :: "string \<Rightarrow> nat \<Rightarrow> bool \<Rightarrow> nat option" where
  "dirname_scan p 0 matchedSlash = None"
| "dirname_scan p (Suc k) matchedSlash =
     (if p ! Suc k = CHR ''/''
      then (if \<not> matchedSlash then Some (Suc k) else dirname_scan p k matchedSlash)
      else dirname_scan p k False)"

definition dirname :: "string \<Rightarrow> string" where
  "dirname p =
     (if length p = 0 then ''.''
      else
        (let hasRoot = (p ! 0 = CHR ''/'') in
         case dirname_scan p (length p - 1) True of
           None \<Rightarrow> if hasRoot then ''/'' else ''.''
         | Some e \<Rightarrow> if hasRoot \<and> e = 1 then ''//'' else take e p))"

text \<open>\<^verbatim>\<open>/\/$/.test(fileName)\<close>.\<close>

definition endsWithSlash :: "string \<Rightarrow> bool" where
  "endsWithSlash str = (str \<noteq> [] \<and> last str = CHR ''/'')"

text \<open>A JavaScript \<^verbatim>\<open>Set\<close> keeps its elements in the order of their first insertion;
  \<^verbatim>\<open>Array.from\<close> reads them in that order.\<close>

definition Set_add :: "'x list \<Rightarrow> 'x \<Rightarrow> 'x list" where
  "Set_add xs x = (if x \<in> set xs then xs else xs @ [x])"

text \<open>
  With \<^verbatim>\<open>lazyEntries\<close> yauzl emits one event per \<^verbatim>\<open>readEntry()\<close>: the entries of the
  archive in their order, each with its file name, and \<^verbatim>\<open>close\<close> after the last one, or an
  error, after which the promise is rejected.
\<close>

datatype zip_event = ZipEntry string | ZipError

fun unzipEntries :: "string \<Rightarrow> zip_event list \<Rightarrow> string list \<Rightarrow> string list io" where
  "unzipEntries targetDir [] newAssets = return newAssets"
| "unzipEntries targetDir (ZipError # evs) newAssets = throw LibraryError"
| "unzipEntries targetDir (ZipEntry fileName # evs) newAssets =
     (if endsWithSlash fileName then unzipEntries targetDir evs newAssets
      else andThen (writeFile (Path targetDir fileName)) (\<lambda>_.
             unzipEntries targetDir evs (Set_add newAssets (dirname fileName))))"

text \<open>The \<^verbatim>\<open>finally\<close> block removes the archive whatever the outcome. Directories
  (\<^verbatim>\<open>shell.mkdir\<close>) are not part of the state, files are.\<close>

definition unzipAssets :: "path \<Rightarrow> string \<Rightarrow> zip_event list \<Rightarrow> string list io" where
  "unzipAssets zipFilePath targetDir zipfile =
     (\<lambda>s. case unzipEntries targetDir zipfile [] s of
             (outcome, s') \<Rightarrow> (outcome, snd (shell_rm [zipFilePath] s')))"

section \<open>Example data\<close>

text \<open>Bundles, a store and a database in the shape of the fixtures of the test suite.\<close>

definition ex_androidA :: Bundle where
  "ex_androidA = \<lparr>bundle_id = ''52b4a9cd'', platform = Android, sourceMap = ''e4b87a58'',
     timestamp = 1566576535136\<rparr>"

definition ex_androidB :: Bundle where
  "ex_androidB = \<lparr>bundle_id = ''de0f2684'', platform = Android, sourceMap = ''24f0e611'',
     timestamp = 1566351493255\<rparr>"

definition ex_iosC :: Bundle where
  "ex_iosC = \<lparr>bundle_id = ''9e122bee'', platform = Ios, sourceMap = ''4a1aaa5b'',
     timestamp = 1566576535999\<rparr>"

definition ex_store :: Store where
  "ex_store = \<lparr>accessKey = ''11122bee'', bundles = [ex_androidA, ex_androidB, ex_iosC],
     store_id = ''acme''\<rparr>"

definition ex_emptyStore :: Store where
  "ex_emptyStore = \<lparr>accessKey = ''k2'', bundles = [], store_id = ''empty''\<rparr>"

definition ex_state :: state where
  "ex_state =
     \<lparr>db = \<lparr>assets = [(''47ce'', EmptyObject), (''70d6'', EmptyObject)],
            stores = [(''acme'', ex_store), (''empty'', ex_emptyStore)]\<rparr>,
      dbFile = ''{}'', files = {}\<rparr>"

text \<open>A serialisation function to run the examples with: the keys and the bundle ids.\<close>

definition ex_stringify :: "Db \<Rightarrow> string" where
  "ex_stringify d =
     concat (map fst (assets d)) @ '':'' @
     concat (map (\<lambda>(k, st). k @ ''['' @ concat (map bundle_id (bundles st)) @ '']'') (stores d))"

text \<open>The files that the upload of a request writes.\<close>

definition uploaded :: "BundleStoreServerConfig \<Rightarrow> BundleUpload \<Rightarrow> path set" where
  "uploaded cfg req =
     (if req_bundle req then {Path (bundles_dir (paths cfg)) (uuid_bundle req)} else {})
     \<union> (if req_sourcemap req then {Path (sourcemaps_dir (paths cfg)) (uuid_sourcemap req)} else {})"

text \<open>The database in which the store \<open>st\<close>, kept under the key \<open>sid\<close>, has the bundles \<open>bs\<close>.\<close>

definition withBundles :: "string \<Rightarrow> Store \<Rightarrow> Bundle list \<Rightarrow> state \<Rightarrow> Db" where
  "withBundles sid st bs s = (db s)\<lparr>stores := AList.update sid (st\<lparr>bundles := bs\<rparr>) (stores (db s))\<rparr>"

text \<open>A configuration from a user's, and three uploads into the store \<^verbatim>\<open>empty\<close>.\<close>

definition ex_join :: "string \<Rightarrow> string \<Rightarrow> string" where
  "ex_join dir name = dir @ ''/'' @ name"

definition ex_userConfig :: "int option \<Rightarrow> BundleStoreServerUserConfig" where
  "ex_userConfig n =
     \<lparr>user_dbSeed = None, user_host = None, user_maxBundles = n, user_paths = None,
      user_port = None, user_rootPath = Some ''store''\<rparr>"

definition ex_config :: "int option \<Rightarrow> BundleStoreServerConfig" where
  "ex_config n = normalizeUserConfig ex_join ''/srv'' (ex_userConfig n)"

definition ex_req1 :: BundleUpload where
  "ex_req1 = \<lparr>req_storeId = ''empty'', req_platform = Android, req_accessKey = Some ''k2'',
     req_bundle = True, req_sourcemap = True, uuid_bundle = ''b1'', uuid_sourcemap = ''m1'',
     date_now = 1565981244558\<rparr>"

definition ex_req2 :: BundleUpload where
  "ex_req2 = \<lparr>req_storeId = ''empty'', req_platform = Ios, req_accessKey = Some ''k2'',
     req_bundle = True, req_sourcemap = True, uuid_bundle = ''b2'', uuid_sourcemap = ''m2'',
     date_now = 1565981271727\<rparr>"

definition ex_req3 :: BundleUpload where
  "ex_req3 = \<lparr>req_storeId = ''empty'', req_platform = Ios, req_accessKey = Some ''k2'',
     req_bundle = True, req_sourcemap = True, uuid_bundle = ''b3'', uuid_sourcemap = ''m3'',
     date_now = 1565981299999\<rparr>"

text \<open>A source map consumer that maps every valid position to one place and throws on a
  line below 1 or a column below 0, as the library does; and stack frames.\<close>

definition ex_consumer :: SourceMapConsumer where
  "ex_consumer line col =
     (if line < 1 \<or> col < 0 then Inl LibraryError
      else Inr \<lparr>pos_source = Some ''foo/App.js'', pos_line = Some 40, pos_column = Some 16,
                pos_name = Some ''handlePress''\<rparr>)"

definition ex_newConsumer :: "string \<Rightarrow> error + SourceMapConsumer" where
  "ex_newConsumer mapText = (if mapText = ''{}'' then Inr ex_consumer else Inl LibraryError)"

definition ex_frame :: "string \<Rightarrow> int \<Rightarrow> int \<Rightarrow> nat StackFrame" where
  "ex_frame f line col =
     \<lparr>arguments = Some [], column = Some col, frame_file = Some f, lineNumber = Some line,
      methodName = ''onPress''\<rparr>"

definition ex_nativeFrame :: "nat StackFrame" where
  "ex_nativeFrame =
     \<lparr>arguments = None, column = None, frame_file = None, lineNumber = None,
      methodName = ''callFunction''\<rparr>"

definition ex_bundleUrl :: string where
  "ex_bundleUrl = ''http://h/bundles/acme/android/latest/index.bundle''"

definition ex_stack :: "nat StackFrame list" where
  "ex_stack = [ex_nativeFrame, ex_frame ex_bundleUrl 87771 24, ex_frame ''[native code]'' 3 7]"

definition ex_symbolicated :: "nat StackFrame" where
  "ex_symbolicated =
     \<lparr>arguments = Some [], column = Some 16, frame_file = Some ''foo/App.js'',
      lineNumber = Some 40, methodName = ''onPress''\<rparr>"


text \<open>The path of an uploaded archive.\<close>

definition ex_zipFilePath :: path where
  "ex_zipFilePath = Path ''store/assets'' ''0a1b.zip''"


section \<open>The metadata store\<close>

lemmas io_steps = return_def throw_def andThen_def getDb_def setDb_def write_db_def
  throwIfStoreDoesNotExist_def throwIfStoreExist_def storeOf_def bundlesOf_def setBundles_def
  hasStore_def collection_def

lemmas io_defs = io_steps getProperty_def

lemmas lodash_defs = lodash_some_def lodash_find_def lodash_filter_def lodash_last_def
  lodash_remove_def lodash_difference_def

lemmas ex_defs = ex_state_def ex_store_def ex_emptyStore_def ex_androidA_def ex_androidB_def
  ex_iosC_def ex_stringify_def

lemma ex_names: "''nostore'' \<notin> set inheritedNames" "''new'' \<notin> set inheritedNames"
  by (simp_all add: inheritedNames_def)

lemma isStoreEmpty_fail: "isStoreEmpty p sid s = (Inl e, t) \<Longrightarrow> t = s"
  by (cases "getProperty (stores (db s)) sid")
     (auto simp: isStoreEmpty_def io_steps split: if_splits)

lemma hasBundle_fail: "hasBundle bid sid s = (Inl e, t) \<Longrightarrow> t = s"
  by (cases "getProperty (stores (db s)) sid")
     (auto simp: hasBundle_def io_steps split: if_splits)

lemma getBundle_fail: "getBundle bid sid s = (Inl e, t) \<Longrightarrow> t = s"
  by (cases "getProperty (stores (db s)) sid")
     (auto simp: getBundle_def io_steps split: if_splits option.splits)

lemma getBundle_state: "snd (getBundle bid sid s) = s"
  by (cases "getProperty (stores (db s)) sid")
     (auto simp: getBundle_def io_steps split: if_splits option.splits)

lemma getLatestBundle_fail: "getLatestBundle pl sid s = (Inl e, t) \<Longrightarrow> t = s"
  by (cases "getProperty (stores (db s)) sid")
     (auto simp: getLatestBundle_def isStoreEmpty_def io_steps split: if_splits)

lemma addBundle_fail: "addBundle stringify new_bundle sid s = (Inl e, t) \<Longrightarrow> t = s"
  by (cases "getProperty (stores (db s)) sid")
     (auto simp: addBundle_def io_steps split: if_splits option.splits)

lemma delBundle_fail: "delBundle stringify bid sid s = (Inl e, t) \<Longrightarrow> t = s"
  by (cases "getProperty (stores (db s)) sid")
     (auto simp: delBundle_def getBundle_def io_steps split: if_splits option.splits)

lemma createStore_fail: "createStore stringify uuid sid s = (Inl e, t) \<Longrightarrow> t = s"
  by (cases "getProperty (stores (db s)) sid")
     (auto simp: createStore_def io_steps Let_def split: if_splits)

lemma getStore_fail: "getStore sid s = (Inl e, t) \<Longrightarrow> t = s"
  by (cases "getProperty (stores (db s)) sid")
     (auto simp: getStore_def io_steps split: if_splits)

lemma delStore_fail: "delStore stringify sid s = (Inl e, t) \<Longrightarrow> t = s"
  by (cases "getProperty (stores (db s)) sid")
     (auto simp: delStore_def io_steps split: if_splits)

lemma createStore_written:
  "createStore stringify uuid sid s = (Inr r, t) \<Longrightarrow> dbFile t = stringify (db t)"
  by (cases "getProperty (stores (db s)) sid")
     (auto simp: createStore_def io_steps Let_def split: if_splits)

lemma delStore_written:
  "delStore stringify sid s = (Inr r, t) \<Longrightarrow> dbFile t = stringify (db t)"
  by (cases "getProperty (stores (db s)) sid")
     (auto simp: delStore_def io_steps split: if_splits)

lemma addBundle_written:
  "addBundle stringify new_bundle sid s = (Inr r, t) \<Longrightarrow> dbFile t = stringify (db t)"
  by (cases "getProperty (stores (db s)) sid")
     (auto simp: addBundle_def io_steps split: if_splits option.splits)

lemma delBundle_written:
  "delBundle stringify bid sid s = (Inr r, t) \<Longrightarrow> dbFile t = stringify (db t)"
  by (cases "getProperty (stores (db s)) sid")
     (auto simp: delBundle_def getBundle_def io_steps split: if_splits option.splits)

lemma createAssets_written:
  "createAssets stringify hashes s = (Inr r, t) \<Longrightarrow> dbFile t = stringify (db t)"
  by (auto simp: createAssets_def io_steps Let_def)

lemma outcome_pair: "fst p = a \<Longrightarrow> p = (a, snd p)"
  by (cases p) simp

text \<open>
  Claim C2. \<open>getLatestBundle\<close> fails when the store has no entry for the namespace (with
  the error of the store, or with a \<open>TypeError\<close> when the name is one that every object
  inherits), fails when the store has no bundle of the requested platform, and otherwise
  returns the bundle of that platform that stands last in the store's sequence: every bundle
  after it is of another platform. Timestamps play no part, and the state is left as it was.
\<close>

theorem getLatestBundle_last_of_platform:
  "(map_of (stores (db s)) sid = None \<longrightarrow>
      getLatestBundle p sid s
        = (Inl (if sid \<in> set inheritedNames then TypeError else StoreDoesNotExist sid), s))
   \<and> (map_of (stores (db s)) sid = Some st \<and> (\<forall>b \<in> set (bundles st). platform b \<noteq> p) \<longrightarrow>
      getLatestBundle p sid s = (Inl (NoBundleInStore sid p), s))
   \<and> (map_of (stores (db s)) sid = Some st \<and> bundles st = older @ b # newer
        \<and> platform b = p \<and> (\<forall>x \<in> set newer. platform x \<noteq> p) \<longrightarrow>
      getLatestBundle p sid s = (Inr (Some b), s))"
  by (auto simp: getLatestBundle_def isStoreEmpty_def io_defs lodash_defs list_ex_iff)

theorem getLatestBundle_last_of_platform_witness:
  "getLatestBundle Android ''acme'' ex_state = (Inr (Some ex_androidB), ex_state)
   \<and> timestamp ex_androidB < timestamp ex_androidA
   \<and> getLatestBundle Ios ''empty'' ex_state = (Inl (NoBundleInStore ''empty'' Ios), ex_state)
   \<and> getLatestBundle Ios ''nostore'' ex_state = (Inl (StoreDoesNotExist ''nostore''), ex_state)
   \<and> getLatestBundle Ios ''constructor'' ex_state = (Inl TypeError, ex_state)"
proof -
  have a: "map_of (stores (db ex_state)) ''nostore'' = None"
    "map_of (stores (db ex_state)) ''constructor'' = None"
    by (simp_all add: ex_state_def)
  have n: "''nostore'' \<notin> set inheritedNames" "''constructor'' \<in> set inheritedNames"
    by (simp_all add: inheritedNames_def)
  have b: "map_of (stores (db ex_state)) ''empty'' = Some ex_emptyStore
           \<and> (\<forall>b \<in> set (bundles ex_emptyStore). platform b \<noteq> Ios)"
    by (simp add: ex_state_def ex_emptyStore_def)
  have c: "map_of (stores (db ex_state)) ''acme'' = Some ex_store
           \<and> bundles ex_store = [ex_androidA] @ ex_androidB # [ex_iosC]
           \<and> platform ex_androidB = Android \<and> (\<forall>x \<in> set [ex_iosC]. platform x \<noteq> Android)"
    by (simp add: ex_state_def ex_store_def ex_androidB_def ex_iosC_def)
  have d: "timestamp ex_androidB < timestamp ex_androidA"
    by (simp add: ex_androidA_def ex_androidB_def)
  have e: "getLatestBundle Ios ''nostore'' ex_state = (Inl (StoreDoesNotExist ''nostore''), ex_state)"
    using a(1) n(1)
      getLatestBundle_last_of_platform [where sid = "''nostore''" and s = ex_state and p = Ios]
    by simp
  have f: "getLatestBundle Ios ''constructor'' ex_state = (Inl TypeError, ex_state)"
    using a(2) n(2)
      getLatestBundle_last_of_platform [where sid = "''constructor''" and s = ex_state and p = Ios]
    by simp
  show ?thesis
    using b c d e f
      getLatestBundle_last_of_platform [where sid = "''empty''" and s = ex_state and p = Ios
        and st = ex_emptyStore]
      getLatestBundle_last_of_platform [where sid = "''acme''" and s = ex_state and p = Android
        and st = ex_store and older = "[ex_androidA]" and b = ex_androidB and newer = "[ex_iosC]"]
    by blast
qed

text \<open>
  Claim C5. The handler of \<^verbatim>\<open>POST /assets/delta\<close> answers with the candidates that are not
  keys of the known assets, in the order and with the repetitions of the input, and leaves
  the state as it was.
\<close>

theorem assetsDelta_unknown_in_order:
  "assetsDelta candidates s =
     (Inr (filter (\<lambda>h. h \<notin> fst ` set (assets (db s))) candidates), s)"
  by (simp add: assetsDelta_def getAssets_def io_defs lodash_defs Object_keys_def)

text \<open>
  Claim C6. When \<open>createStore\<close>, \<open>delStore\<close>, \<open>addBundle\<close>, \<open>delBundle\<close> or
  \<open>createAssets\<close> returns, the file of the database holds the serialisation of the
  database in memory, whatever the file held before the call.
\<close>

theorem mutations_write_through:
  "(createStore stringify uuid sid_c s_c = (Inr r_c, t_c) \<longrightarrow> dbFile t_c = stringify (db t_c))
   \<and> (delStore stringify sid_d s_d = (Inr r_d, t_d) \<longrightarrow> dbFile t_d = stringify (db t_d))
   \<and> (addBundle stringify new_bundle sid_a s_a = (Inr r_a, t_a) \<longrightarrow> dbFile t_a = stringify (db t_a))
   \<and> (delBundle stringify bid sid_b s_b = (Inr r_b, t_b) \<longrightarrow> dbFile t_b = stringify (db t_b))
   \<and> (createAssets stringify hashes s_h = (Inr r_h, t_h) \<longrightarrow> dbFile t_h = stringify (db t_h))"
  by (intro conjI impI)
     (erule createStore_written delStore_written addBundle_written delBundle_written
        createAssets_written)+

theorem mutations_write_through_witness:
  "fst (createStore ex_stringify ''7f3a'' ''new'' ex_state)
     = Inr \<lparr>accessKey = ''7f3a'', bundles = [], store_id = ''new''\<rparr>
   \<and> dbFile (snd (createStore ex_stringify ''7f3a'' ''new'' ex_state))
     = ex_stringify (db (snd (createStore ex_stringify ''7f3a'' ''new'' ex_state)))
   \<and> fst (delStore ex_stringify ''acme'' ex_state) = Inr (Own ex_store)
   \<and> dbFile (snd (delStore ex_stringify ''acme'' ex_state))
     = ex_stringify (db (snd (delStore ex_stringify ''acme'' ex_state)))
   \<and> fst (addBundle ex_stringify ex_iosC ''empty'' ex_state) = Inr ()
   \<and> dbFile (snd (addBundle ex_stringify ex_iosC ''empty'' ex_state))
     = ex_stringify (db (snd (addBundle ex_stringify ex_iosC ''empty'' ex_state)))
   \<and> fst (delBundle ex_stringify ''52b4a9cd'' ''acme'' ex_state) = Inr ex_androidA
   \<and> dbFile (snd (delBundle ex_stringify ''52b4a9cd'' ''acme'' ex_state))
     = ex_stringify (db (snd (delBundle ex_stringify ''52b4a9cd'' ''acme'' ex_state)))
   \<and> fst (createAssets ex_stringify [''ffc7'', ''47ce''] ex_state)
     = Inr [(''ffc7'', EmptyObject), (''47ce'', EmptyObject)]
   \<and> dbFile (snd (createAssets ex_stringify [''ffc7'', ''47ce''] ex_state))
     = ex_stringify (db (snd (createAssets ex_stringify [''ffc7'', ''47ce''] ex_state)))"
proof -
  have a: "fst (createStore ex_stringify ''7f3a'' ''new'' ex_state)
             = Inr \<lparr>accessKey = ''7f3a'', bundles = [], store_id = ''new''\<rparr>"
    by (simp add: createStore_def io_defs ex_names ex_state_def Let_def)
  have b: "fst (delStore ex_stringify ''acme'' ex_state) = Inr (Own ex_store)"
    by (simp add: delStore_def io_defs ex_names ex_state_def)
  have c: "fst (addBundle ex_stringify ex_iosC ''empty'' ex_state) = Inr ()"
    by (simp add: addBundle_def io_defs ex_names ex_state_def)
  have d: "fst (delBundle ex_stringify ''52b4a9cd'' ''acme'' ex_state) = Inr ex_androidA"
    by (simp add: delBundle_def getBundle_def io_defs ex_names lodash_defs ex_state_def ex_store_def
          ex_androidA_def)
  have e: "fst (createAssets ex_stringify [''ffc7'', ''47ce''] ex_state)
             = Inr [(''ffc7'', EmptyObject), (''47ce'', EmptyObject)]"
    by (simp add: createAssets_def io_defs ex_names Let_def)
  show ?thesis
    using a b c d e
      outcome_pair [OF a] outcome_pair [OF b] outcome_pair [OF c] outcome_pair [OF d]
      outcome_pair [OF e]
      mutations_write_through [where stringify = ex_stringify
        and uuid = "''7f3a''" and sid_c = "''new''" and s_c = ex_state
        and r_c = "\<lparr>accessKey = ''7f3a'', bundles = [], store_id = ''new''\<rparr>"
        and t_c = "snd (createStore ex_stringify ''7f3a'' ''new'' ex_state)"
        and sid_d = "''acme''" and s_d = ex_state and r_d = "Own ex_store"
        and t_d = "snd (delStore ex_stringify ''acme'' ex_state)"
        and new_bundle = ex_iosC and sid_a = "''empty''" and s_a = ex_state and r_a = "()"
        and t_a = "snd (addBundle ex_stringify ex_iosC ''empty'' ex_state)"
        and bid = "''52b4a9cd''" and sid_b = "''acme''" and s_b = ex_state
        and r_b = ex_androidA
        and t_b = "snd (delBundle ex_stringify ''52b4a9cd'' ''acme'' ex_state)"
        and hashes = "[''ffc7'', ''47ce'']" and s_h = ex_state
        and r_h = "[(''ffc7'', EmptyObject), (''47ce'', EmptyObject)]"
        and t_h = "snd (createAssets ex_stringify [''ffc7'', ''47ce''] ex_state)"]
    by blast
qed

text \<open>
  Claim C9. A method of the store that throws leaves the database in memory, its file and
  everything else as they were: the checks come before the first change.
\<close>

theorem failure_changes_nothing:
  "(isStoreEmpty p sid s = (Inl e, t) \<longrightarrow> t = s)
   \<and> (hasBundle bid sid s = (Inl e, t) \<longrightarrow> t = s)
   \<and> (getBundle bid sid s = (Inl e, t) \<longrightarrow> t = s)
   \<and> (getLatestBundle pl sid s = (Inl e, t) \<longrightarrow> t = s)
   \<and> (addBundle stringify new_bundle sid s = (Inl e, t) \<longrightarrow> t = s)
   \<and> (delBundle stringify bid sid s = (Inl e, t) \<longrightarrow> t = s)
   \<and> (createStore stringify uuid sid s = (Inl e, t) \<longrightarrow> t = s)
   \<and> (getStore sid s = (Inl e, t) \<longrightarrow> t = s)
   \<and> (delStore stringify sid s = (Inl e, t) \<longrightarrow> t = s)"
  by (intro conjI impI)
     (erule isStoreEmpty_fail hasBundle_fail getBundle_fail getLatestBundle_fail addBundle_fail
        delBundle_fail createStore_fail getStore_fail delStore_fail)+

theorem failure_changes_nothing_witness:
  "fst (isStoreEmpty (Some Ios) ''nostore'' ex_state) = Inl (StoreDoesNotExist ''nostore'')
   \<and> snd (isStoreEmpty (Some Ios) ''nostore'' ex_state) = ex_state
   \<and> fst (hasBundle ''52b4a9cd'' ''nostore'' ex_state) = Inl (StoreDoesNotExist ''nostore'')
   \<and> snd (hasBundle ''52b4a9cd'' ''nostore'' ex_state) = ex_state
   \<and> fst (getLatestBundle Ios ''nostore'' ex_state) = Inl (StoreDoesNotExist ''nostore'')
   \<and> snd (getLatestBundle Ios ''nostore'' ex_state) = ex_state
   \<and> fst (addBundle ex_stringify ex_iosC ''nostore'' ex_state)
       = Inl (StoreDoesNotExist ''nostore'')
   \<and> snd (addBundle ex_stringify ex_iosC ''nostore'' ex_state) = ex_state
   \<and> fst (getStore ''nostore'' ex_state) = Inl (StoreDoesNotExist ''nostore'')
   \<and> snd (getStore ''nostore'' ex_state) = ex_state
   \<and> fst (delStore ex_stringify ''nostore'' ex_state) = Inl (StoreDoesNotExist ''nostore'')
   \<and> snd (delStore ex_stringify ''nostore'' ex_state) = ex_state
   \<and> fst (getBundle ''0000'' ''acme'' ex_state) = Inl (BundleDoesNotExist ''0000'' ''acme'')
   \<and> snd (getBundle ''0000'' ''acme'' ex_state) = ex_state
   \<and> fst (delBundle ex_stringify ''0000'' ''acme'' ex_state)
       = Inl (BundleDoesNotExist ''0000'' ''acme'')
   \<and> snd (delBundle ex_stringify ''0000'' ''acme'' ex_state) = ex_state
   \<and> fst (createStore ex_stringify ''7f3a'' ''acme'' ex_state)
       = Inl (StoreAlreadyExist ''acme'')
   \<and> snd (createStore ex_stringify ''7f3a'' ''acme'' ex_state) = ex_state"
proof -
  have a: "fst (isStoreEmpty (Some Ios) ''nostore'' ex_state) = Inl (StoreDoesNotExist ''nostore'')"
    by (simp add: isStoreEmpty_def io_defs ex_names ex_state_def)
  have b: "fst (hasBundle ''52b4a9cd'' ''nostore'' ex_state) = Inl (StoreDoesNotExist ''nostore'')"
    by (simp add: hasBundle_def io_defs ex_names ex_state_def)
  have c: "fst (getLatestBundle Ios ''nostore'' ex_state) = Inl (StoreDoesNotExist ''nostore'')"
    by (simp add: getLatestBundle_def io_defs ex_names ex_state_def)
  have d: "fst (addBundle ex_stringify ex_iosC ''nostore'' ex_state)
             = Inl (StoreDoesNotExist ''nostore'')"
    by (simp add: addBundle_def io_defs ex_names ex_state_def)
  have f: "fst (getStore ''nostore'' ex_state) = Inl (StoreDoesNotExist ''nostore'')"
    by (simp add: getStore_def io_defs ex_names ex_state_def)
  have g: "fst (delStore ex_stringify ''nostore'' ex_state) = Inl (StoreDoesNotExist ''nostore'')"
    by (simp add: delStore_def io_defs ex_names ex_state_def)
  have h: "fst (getBundle ''0000'' ''acme'' ex_state) = Inl (BundleDoesNotExist ''0000'' ''acme'')"
    by (simp add: getBundle_def io_defs ex_names lodash_defs ex_defs)
  have i: "fst (delBundle ex_stringify ''0000'' ''acme'' ex_state)
             = Inl (BundleDoesNotExist ''0000'' ''acme'')"
    by (simp add: delBundle_def getBundle_def io_defs ex_names lodash_defs ex_defs)
  have j: "fst (createStore ex_stringify ''7f3a'' ''acme'' ex_state)
             = Inl (StoreAlreadyExist ''acme'')"
    by (simp add: createStore_def io_defs ex_names ex_state_def)
  note absent = failure_changes_nothing [where s = ex_state and sid = "''nostore''"
      and e = "StoreDoesNotExist ''nostore''" and stringify = ex_stringify
      and new_bundle = ex_iosC and pl = Ios and p = "Some Ios" and bid = "''52b4a9cd''"]
  note nobundle = failure_changes_nothing [where s = ex_state and sid = "''acme''"
      and e = "BundleDoesNotExist ''0000'' ''acme''" and stringify = ex_stringify
      and bid = "''0000''"]
  note exists = failure_changes_nothing [where s = ex_state and sid = "''acme''"
      and e = "StoreAlreadyExist ''acme''" and stringify = ex_stringify and uuid = "''7f3a''"]
  have a': "snd (isStoreEmpty (Some Ios) ''nostore'' ex_state) = ex_state"
    using absent outcome_pair [OF a] by blast
  have b': "snd (hasBundle ''52b4a9cd'' ''nostore'' ex_state) = ex_state"
    using absent outcome_pair [OF b] by blast
  have c': "snd (getLatestBundle Ios ''nostore'' ex_state) = ex_state"
    using absent outcome_pair [OF c] by blast
  have d': "snd (addBundle ex_stringify ex_iosC ''nostore'' ex_state) = ex_state"
    using absent outcome_pair [OF d] by blast
  have f': "snd (getStore ''nostore'' ex_state) = ex_state"
    using absent outcome_pair [OF f] by blast
  have g': "snd (delStore ex_stringify ''nostore'' ex_state) = ex_state"
    using absent outcome_pair [OF g] by blast
  have h': "snd (getBundle ''0000'' ''acme'' ex_state) = ex_state"
    using nobundle outcome_pair [OF h] by blast
  have i': "snd (delBundle ex_stringify ''0000'' ''acme'' ex_state) = ex_state"
    using nobundle outcome_pair [OF i] by blast
  have j': "snd (createStore ex_stringify ''7f3a'' ''acme'' ex_state) = ex_state"
    using exists outcome_pair [OF j] by blast
  show ?thesis
    using a b c d f g h i j a' b' c' d' f' g' h' i' j' by simp
qed

section \<open>Retention\<close>

lemma andThen_ok: "m s = (Inr x, s') \<Longrightarrow> andThen m f s = f x s'"
  by (simp add: andThen_def)

lemma andThen_fail: "m s = (Inl e, s') \<Longrightarrow> andThen m f s = (Inl e, s')"
  by (simp add: andThen_def)

lemma getStore_ok:
  "map_of (stores (db s)) sid = Some st \<Longrightarrow> getStore sid s = (Inr (Own st), s)"
  by (simp add: getStore_def io_defs)

lemma addBundle_ok:
  "map_of (stores (db s)) sid = Some st \<Longrightarrow>
   addBundle f b sid s =
     (Inr (), s\<lparr>db := withBundles sid st (bundles st @ [b]) s,
                dbFile := f (withBundles sid st (bundles st @ [b]) s)\<rparr>)"
  by (simp add: addBundle_def io_defs withBundles_def)

lemma delBundle_ok:
  "map_of (stores (db s)) sid = Some st \<Longrightarrow> bundles st = b0 # rest \<Longrightarrow>
   delBundle f (bundle_id b0) sid s =
     (Inr b0, s\<lparr>db := withBundles sid st (filter (\<lambda>b. bundle_id b \<noteq> bundle_id b0) rest) s,
                dbFile := f (withBundles sid st (filter (\<lambda>b. bundle_id b \<noteq> bundle_id b0) rest) s)\<rparr>)"
  by (simp add: delBundle_def getBundle_def io_defs lodash_defs withBundles_def)

lemma upload_ok: "upload cfg r s = (Inr (), s\<lparr>files := files s \<union> uploaded cfg r\<rparr>)"
  by (auto simp: upload_def writeFile_def uploaded_def io_defs insert_commute)

lemma map_of_withBundles:
  "map_of (stores (withBundles sid st bs s)) = (map_of (stores (db s)))(sid \<mapsto> st\<lparr>bundles := bs\<rparr>)"
  by (simp add: withBundles_def update_conv')

lemma addBundleToStore_no_eviction:
  assumes "map_of (stores (db s)) (store_id st) = Some st"
    "maxBundles cfg = - 1 \<or> int (length (bundles st)) < maxBundles cfg"
  shows "addBundleToStore cfg f st b s =
     (Inr b, s\<lparr>db := withBundles (store_id st) st (bundles st @ [b]) s,
               dbFile := f (withBundles (store_id st) st (bundles st @ [b]) s)\<rparr>)"
proof -
  have "addBundleToStore cfg f st b s
        = andThen (addBundle f b (store_id st)) (\<lambda>_. return b) s"
    using assms(2) by (auto simp: addBundleToStore_def andThen_def return_def)
  then show ?thesis
    by (simp add: andThen_def addBundle_ok [OF assms(1), of f b] return_def)
qed

lemma addBundleToStore_eviction:
  assumes st: "map_of (stores (db s)) (store_id st) = Some st"
    and lim: "maxBundles cfg \<noteq> - 1" "maxBundles cfg \<le> int (length (bundles st))"
    and bs: "bundles st = b0 # rest"
  shows "fst (addBundleToStore cfg f st b s) = Inr b"
    and "map_of (stores (db (snd (addBundleToStore cfg f st b s))))
          = (map_of (stores (db s)))(store_id st \<mapsto>
               st\<lparr>bundles := filter (\<lambda>x. bundle_id x \<noteq> bundle_id b0) rest @ [b]\<rparr>)"
    and "files (snd (addBundleToStore cfg f st b s))
          = files s - {getPathToBundle cfg (bundle_id b0), getPathToSourceMap cfg (sourceMap b0)}"
proof -
  let ?rm = "shell_rm [getPathToBundle cfg (bundle_id b0), getPathToSourceMap cfg (sourceMap b0)]"
  let ?s1 = "s\<lparr>files := files s - {getPathToBundle cfg (bundle_id b0), getPathToSourceMap cfg (sourceMap b0)}\<rparr>"
  let ?kept = "filter (\<lambda>x. bundle_id x \<noteq> bundle_id b0) rest"
  let ?s2 = "?s1\<lparr>db := withBundles (store_id st) st ?kept ?s1,
                 dbFile := f (withBundles (store_id st) st ?kept ?s1)\<rparr>"
  have rm: "?rm s = (Inr (), ?s1)"
    by (simp add: shell_rm_def)
  have st1: "map_of (stores (db ?s1)) (store_id st) = Some st"
    using st by simp
  have del: "delBundle f (bundle_id b0) (store_id st) ?s1 = (Inr b0, ?s2)"
    by (rule delBundle_ok [OF st1 bs])
  have st2: "map_of (stores (db ?s2)) (store_id st) = Some (st\<lparr>bundles := ?kept\<rparr>)"
    by (simp add: map_of_withBundles)
  have add: "addBundle f b (store_id st) ?s2 =
     (Inr (), ?s2\<lparr>db := withBundles (store_id st) (st\<lparr>bundles := ?kept\<rparr>) (?kept @ [b]) ?s2,
                dbFile := f (withBundles (store_id st) (st\<lparr>bundles := ?kept\<rparr>) (?kept @ [b]) ?s2)\<rparr>)"
    using addBundle_ok [OF st2, of f b] by simp
  have unfold: "addBundleToStore cfg f st b s =
      andThen (andThen ?rm (\<lambda>_. andThen (delBundle f (bundle_id b0) (store_id st)) (\<lambda>_. return ())))
        (\<lambda>_. andThen (addBundle f b (store_id st)) (\<lambda>_. return b)) s"
    using lim bs by (simp add: addBundleToStore_def)
  have res: "addBundleToStore cfg f st b s =
     (Inr b, ?s2\<lparr>db := withBundles (store_id st) (st\<lparr>bundles := ?kept\<rparr>) (?kept @ [b]) ?s2,
                dbFile := f (withBundles (store_id st) (st\<lparr>bundles := ?kept\<rparr>) (?kept @ [b]) ?s2)\<rparr>)"
    unfolding unfold
    by (simp add: andThen_def rm del add return_def)
  show "fst (addBundleToStore cfg f st b s) = Inr b"
    by (simp add: res)
  show "map_of (stores (db (snd (addBundleToStore cfg f st b s))))
          = (map_of (stores (db s)))(store_id st \<mapsto> st\<lparr>bundles := ?kept @ [b]\<rparr>)"
    by (simp add: res map_of_withBundles)
  show "files (snd (addBundleToStore cfg f st b s))
          = files s - {getPathToBundle cfg (bundle_id b0), getPathToSourceMap cfg (sourceMap b0)}"
    by (simp add: res)
qed


lemma postBundle_authorized:
  assumes "map_of (stores (db s)) (req_storeId r) = Some st"
    and "req_accessKey r = Some (accessKey st)" "accessKey st \<noteq> []"
  shows "postBundle cfg f r s =
     andThen (addBundleToStore cfg f st (bundleOf r)) (\<lambda>b. return (Status201 b))
       (s\<lparr>files := files s \<union> uploaded cfg r\<rparr>)"
  using assms
  by (simp add: postBundle_def getDb_def hasStore_def getProperty_def andThen_def return_def
        getStore_ok [OF assms(1)] upload_ok truthy_string_def)

lemma postBundle_no_eviction:
  assumes st: "map_of (stores (db s)) (req_storeId r) = Some st" "store_id st = req_storeId r"
    and key: "req_accessKey r = Some (accessKey st)" "accessKey st \<noteq> []"
    and lim: "maxBundles cfg = - 1 \<or> int (length (bundles st)) < maxBundles cfg"
  shows "fst (postBundle cfg f r s) = Inr (Status201 (bundleOf r))"
    and "map_of (stores (db (snd (postBundle cfg f r s))))
          = (map_of (stores (db s)))(req_storeId r \<mapsto> st\<lparr>bundles := bundles st @ [bundleOf r]\<rparr>)"
    and "files (snd (postBundle cfg f r s)) = files s \<union> uploaded cfg r"
proof -
  let ?s0 = "s\<lparr>files := files s \<union> uploaded cfg r\<rparr>"
  have st0: "map_of (stores (db ?s0)) (store_id st) = Some st"
    using st by simp
  note res = addBundleToStore_no_eviction [OF st0 lim, of f "bundleOf r"]
  note post = postBundle_authorized [OF st(1) key, of cfg f]
  show "fst (postBundle cfg f r s) = Inr (Status201 (bundleOf r))"
    by (simp add: post andThen_def res return_def)
  show "map_of (stores (db (snd (postBundle cfg f r s))))
          = (map_of (stores (db s)))(req_storeId r \<mapsto> st\<lparr>bundles := bundles st @ [bundleOf r]\<rparr>)"
    by (simp add: post andThen_def res return_def map_of_withBundles st(2))
  show "files (snd (postBundle cfg f r s)) = files s \<union> uploaded cfg r"
    by (simp add: post andThen_def res return_def)
qed

lemma postBundle_eviction:
  assumes st: "map_of (stores (db s)) (req_storeId r) = Some st" "store_id st = req_storeId r"
    and key: "req_accessKey r = Some (accessKey st)" "accessKey st \<noteq> []"
    and lim: "maxBundles cfg \<noteq> - 1" "maxBundles cfg \<le> int (length (bundles st))"
    and bs: "bundles st = b0 # rest"
  shows "fst (postBundle cfg f r s) = Inr (Status201 (bundleOf r))"
    and "map_of (stores (db (snd (postBundle cfg f r s))))
          = (map_of (stores (db s)))(req_storeId r \<mapsto>
               st\<lparr>bundles := filter (\<lambda>x. bundle_id x \<noteq> bundle_id b0) rest @ [bundleOf r]\<rparr>)"
    and "files (snd (postBundle cfg f r s))
          = (files s \<union> uploaded cfg r)
              - {getPathToBundle cfg (bundle_id b0), getPathToSourceMap cfg (sourceMap b0)}"
proof -
  let ?s0 = "s\<lparr>files := files s \<union> uploaded cfg r\<rparr>"
  let ?out = "addBundleToStore cfg f st (bundleOf r) ?s0"
  have st0: "map_of (stores (db ?s0)) (store_id st) = Some st"
    using st by simp
  note res = addBundleToStore_eviction [OF st0 lim bs, of f "bundleOf r"]
  have post: "postBundle cfg f r s = (Inr (Status201 (bundleOf r)), snd ?out)"
    using res(1) by (cases ?out) (simp add: postBundle_authorized [OF st(1) key] andThen_def return_def)
  show "fst (postBundle cfg f r s) = Inr (Status201 (bundleOf r))"
    by (simp add: post)
  show "map_of (stores (db (snd (postBundle cfg f r s))))
          = (map_of (stores (db s)))(req_storeId r \<mapsto>
               st\<lparr>bundles := filter (\<lambda>x. bundle_id x \<noteq> bundle_id b0) rest @ [bundleOf r]\<rparr>)"
    using res(2) by (simp add: post st(2))
  show "files (snd (postBundle cfg f r s))
          = (files s \<union> uploaded cfg r)
              - {getPathToBundle cfg (bundle_id b0), getPathToSourceMap cfg (sourceMap b0)}"
    using res(3) by (simp add: post)
qed

lemma postBundles_Cons:
  "fst (postBundle cfg f r s) = Inr res \<Longrightarrow>
   fst (postBundles cfg f rs (snd (postBundle cfg f r s))) = Inr ress \<Longrightarrow>
   postBundles cfg f (r # rs) s
     = (Inr (res # ress), snd (postBundles cfg f rs (snd (postBundle cfg f r s))))"
  by (cases "postBundle cfg f r s"; cases "postBundles cfg f rs (snd (postBundle cfg f r s))")
     (simp add: andThen_def return_def)

lemma filter_other_ids:
  "bundle_id b0 \<notin> bundle_id ` set rest \<Longrightarrow> filter (\<lambda>x. bundle_id x \<noteq> bundle_id b0) rest = rest"
  by (induction rest) auto


lemma uploaded_names:
  "x \<in> uploaded cfg r \<Longrightarrow>
     x = Path (bundles_dir (paths cfg)) (bundle_id (bundleOf r))
     \<or> x = Path (sourcemaps_dir (paths cfg)) (sourceMap (bundleOf r))"
  by (auto simp: uploaded_def bundleOf_def split: if_splits)

lemma retention_general:
  assumes N: "1 \<le> maxBundles cfg"
  shows "map_of (stores (db s)) sid = Some st \<Longrightarrow> store_id st = sid \<Longrightarrow> accessKey st \<noteq> [] \<Longrightarrow>
    (\<forall>r \<in> set rs. req_storeId r = sid \<and> req_accessKey r = Some (accessKey st)) \<Longrightarrow>
    int (length (bundles st)) \<le> maxBundles cfg \<Longrightarrow>
    distinct (map bundle_id (bundles st @ map bundleOf rs) @ map sourceMap (bundles st @ map bundleOf rs)) \<Longrightarrow>
    fst (postBundles cfg f rs s) = Inr (map (\<lambda>r. Status201 (bundleOf r)) rs)
    \<and> map_of (stores (db (snd (postBundles cfg f rs s)))) sid
        = Some (st\<lparr>bundles := drop (length (bundles st) + length rs - nat (maxBundles cfg))
                                   (bundles st @ map bundleOf rs)\<rparr>)
    \<and> files (snd (postBundles cfg f rs s)) \<subseteq> files s \<union> (\<Union>r \<in> set rs. uploaded cfg r)
    \<and> (\<forall>b \<in> set (take (length (bundles st) + length rs - nat (maxBundles cfg))
                      (bundles st @ map bundleOf rs)).
          getPathToBundle cfg (bundle_id b) \<notin> files (snd (postBundles cfg f rs s))
          \<and> getPathToSourceMap cfg (sourceMap b) \<notin> files (snd (postBundles cfg f rs s)))"
proof (induction rs arbitrary: s st)
  case Nil
  have "length (bundles st) \<le> nat (maxBundles cfg)"
    using Nil.prems(5) by linarith
  then show ?case
    using Nil.prems(1) by (simp add: return_def)
next
  case (Cons r rs)
  let ?n = "nat (maxBundles cfg)"
  let ?b = "bundleOf r"
  let ?bs = "map bundleOf rs"
  let ?s1 = "snd (postBundle cfg f r s)"
  let ?fin = "snd (postBundles cfg f rs ?s1)"
  have st: "map_of (stores (db s)) (req_storeId r) = Some st" "store_id st = req_storeId r"
    and key: "req_accessKey r = Some (accessKey st)" "accessKey st \<noteq> []"
    using Cons.prems by simp_all
  have auth: "\<forall>r \<in> set rs. req_storeId r = sid \<and> req_accessKey r = Some (accessKey st)"
    using Cons.prems(4) by simp
  have sid: "req_storeId r = sid" using Cons.prems(4) by simp
  have dist: "distinct (map bundle_id (bundles st @ ?b # ?bs) @ map sourceMap (bundles st @ ?b # ?bs))"
    using Cons.prems(6) by simp
  show ?case
  proof (cases "length (bundles st) < ?n")
    case True
    then have lim: "maxBundles cfg = - 1 \<or> int (length (bundles st)) < maxBundles cfg"
      by linarith
    let ?st1 = "st\<lparr>bundles := bundles st @ [?b]\<rparr>"
    note step = postBundle_no_eviction [OF st key lim, of f]
    have a: "map_of (stores (db ?s1)) sid = Some ?st1"
      using step(2) sid by simp
    have b: "int (length (bundles ?st1)) \<le> maxBundles cfg"
      using True by simp
    have c: "distinct (map bundle_id (bundles ?st1 @ ?bs) @ map sourceMap (bundles ?st1 @ ?bs))"
      using dist by simp
    have ih: "fst (postBundles cfg f rs ?s1) = Inr (map (\<lambda>r. Status201 (bundleOf r)) rs)
      \<and> map_of (stores (db ?fin)) sid
          = Some (?st1\<lparr>bundles := drop (length (bundles ?st1) + length rs - ?n) (bundles ?st1 @ ?bs)\<rparr>)
      \<and> files ?fin \<subseteq> files ?s1 \<union> (\<Union>r \<in> set rs. uploaded cfg r)
      \<and> (\<forall>b \<in> set (take (length (bundles ?st1) + length rs - ?n) (bundles ?st1 @ ?bs)).
            getPathToBundle cfg (bundle_id b) \<notin> files ?fin
            \<and> getPathToSourceMap cfg (sourceMap b) \<notin> files ?fin)"
      using Cons.IH [OF a _ _ _ b c] Cons.prems(2,3) auth by simp
    have whole: "postBundles cfg f (r # rs) s
          = (Inr (map (\<lambda>r. Status201 (bundleOf r)) (r # rs)), ?fin)"
      using ih postBundles_Cons [OF step(1), of rs] by (simp del: postBundles.simps)
    show ?thesis
      using ih step(3) by (simp add: whole del: postBundles.simps) blast
  next
    case False
    then have full: "length (bundles st) = ?n"
      using Cons.prems(5) by linarith
    then obtain b0 rest where bs: "bundles st = b0 # rest"
      using N by (cases "bundles st") auto
    have lim: "maxBundles cfg \<noteq> - 1" "maxBundles cfg \<le> int (length (bundles st))"
      using N full by linarith+
    have fresh: "bundle_id b0 \<notin> bundle_id ` set rest"
      using dist bs by auto
    let ?st1 = "st\<lparr>bundles := rest @ [?b]\<rparr>"
    note step = postBundle_eviction [OF st key lim bs, of f]
    have a: "map_of (stores (db ?s1)) sid = Some ?st1"
      using step(2) sid by (simp add: filter_other_ids [OF fresh])
    have b: "int (length (bundles ?st1)) \<le> maxBundles cfg"
      using full bs by simp
    have c: "distinct (map bundle_id (bundles ?st1 @ ?bs) @ map sourceMap (bundles ?st1 @ ?bs))"
      using dist bs by auto
    have ih: "fst (postBundles cfg f rs ?s1) = Inr (map (\<lambda>r. Status201 (bundleOf r)) rs)
      \<and> map_of (stores (db ?fin)) sid
          = Some (?st1\<lparr>bundles := drop (length (bundles ?st1) + length rs - ?n) (bundles ?st1 @ ?bs)\<rparr>)
      \<and> files ?fin \<subseteq> files ?s1 \<union> (\<Union>r \<in> set rs. uploaded cfg r)
      \<and> (\<forall>b \<in> set (take (length (bundles ?st1) + length rs - ?n) (bundles ?st1 @ ?bs)).
            getPathToBundle cfg (bundle_id b) \<notin> files ?fin
            \<and> getPathToSourceMap cfg (sourceMap b) \<notin> files ?fin)"
      using Cons.IH [OF a _ _ _ b c] Cons.prems(2,3) auth by simp
    have whole: "postBundles cfg f (r # rs) s
          = (Inr (map (\<lambda>r. Status201 (bundleOf r)) (r # rs)), ?fin)"
      using ih postBundles_Cons [OF step(1), of rs] by (simp del: postBundles.simps)
    have len: "length (bundles st) + length (r # rs) - ?n = Suc (length rs)"
      "length (bundles ?st1) + length rs - ?n = length rs"
      using full bs by simp_all
    have later_names: "\<And>x. x \<in> (\<Union>r \<in> set rs. uploaded cfg r) \<Longrightarrow>
        x \<noteq> getPathToBundle cfg (bundle_id b0) \<and> x \<noteq> getPathToSourceMap cfg (sourceMap b0)"
    proof -
      fix x assume "x \<in> (\<Union>r \<in> set rs. uploaded cfg r)"
      then obtain r' where r': "r' \<in> set rs" "x \<in> uploaded cfg r'" by auto
      have "bundle_id b0 \<noteq> bundle_id (bundleOf r')" "bundle_id b0 \<noteq> sourceMap (bundleOf r')"
        "sourceMap b0 \<noteq> bundle_id (bundleOf r')" "sourceMap b0 \<noteq> sourceMap (bundleOf r')"
        using dist bs r'(1) by auto
      then show "x \<noteq> getPathToBundle cfg (bundle_id b0) \<and> x \<noteq> getPathToSourceMap cfg (sourceMap b0)"
        using uploaded_names [OF r'(2)]
        by (auto simp: getPathToBundle_def getPathToSourceMap_def)
    qed
    have gone: "getPathToBundle cfg (bundle_id b0) \<notin> files ?fin
                \<and> getPathToSourceMap cfg (sourceMap b0) \<notin> files ?fin"
      using ih step(3) later_names by blast
    have sub: "files ?fin \<subseteq> files s \<union> (\<Union>r \<in> set (r # rs). uploaded cfg r)"
      using ih step(3) by auto
    have stores: "map_of (stores (db ?fin)) sid
        = Some (st\<lparr>bundles := drop (length (bundles st) + length (r # rs) - ?n)
                                  (bundles st @ map bundleOf (r # rs))\<rparr>)"
      using ih by (simp only: len) (simp add: bs)
    have evicted: "\<forall>b \<in> set (take (length (bundles st) + length (r # rs) - ?n)
                      (bundles st @ map bundleOf (r # rs))).
          getPathToBundle cfg (bundle_id b) \<notin> files ?fin
          \<and> getPathToSourceMap cfg (sourceMap b) \<notin> files ?fin"
      using ih gone by (simp only: len) (simp add: bs)
    show ?thesis
      using stores evicted sub by (simp add: whole del: postBundles.simps)
  qed
qed


lemma no_eviction_general:
  assumes N: "maxBundles cfg = - 1"
  shows "map_of (stores (db s)) sid = Some st \<Longrightarrow> store_id st = sid \<Longrightarrow> accessKey st \<noteq> [] \<Longrightarrow>
    (\<forall>r \<in> set rs. req_storeId r = sid \<and> req_accessKey r = Some (accessKey st)) \<Longrightarrow>
    fst (postBundles cfg f rs s) = Inr (map (\<lambda>r. Status201 (bundleOf r)) rs)
    \<and> map_of (stores (db (snd (postBundles cfg f rs s)))) sid
        = Some (st\<lparr>bundles := bundles st @ map bundleOf rs\<rparr>)
    \<and> files (snd (postBundles cfg f rs s)) = files s \<union> (\<Union>r \<in> set rs. uploaded cfg r)"
proof (induction rs arbitrary: s st)
  case Nil
  then show ?case by (simp add: return_def)
next
  case (Cons r rs)
  let ?s1 = "snd (postBundle cfg f r s)"
  let ?st1 = "st\<lparr>bundles := bundles st @ [bundleOf r]\<rparr>"
  have st: "map_of (stores (db s)) (req_storeId r) = Some st" "store_id st = req_storeId r"
    and key: "req_accessKey r = Some (accessKey st)" "accessKey st \<noteq> []"
    using Cons.prems by simp_all
  have sid: "req_storeId r = sid" using Cons.prems(4) by simp
  have lim: "maxBundles cfg = - 1 \<or> int (length (bundles st)) < maxBundles cfg"
    using N by simp
  note step = postBundle_no_eviction [OF st key lim, of f]
  have a: "map_of (stores (db ?s1)) sid = Some ?st1"
    using step(2) sid by simp
  have ih: "fst (postBundles cfg f rs ?s1) = Inr (map (\<lambda>r. Status201 (bundleOf r)) rs)
    \<and> map_of (stores (db (snd (postBundles cfg f rs ?s1)))) sid
        = Some (?st1\<lparr>bundles := bundles ?st1 @ map bundleOf rs\<rparr>)
    \<and> files (snd (postBundles cfg f rs ?s1)) = files ?s1 \<union> (\<Union>r \<in> set rs. uploaded cfg r)"
    using Cons.IH [OF a] Cons.prems(2,3,4) by simp
  have whole: "postBundles cfg f (r # rs) s
        = (Inr (map (\<lambda>r. Status201 (bundleOf r)) (r # rs)), snd (postBundles cfg f rs ?s1))"
    using ih postBundles_Cons [OF step(1), of rs] by (simp del: postBundles.simps)
  show ?case
    using ih step(3) by (simp add: whole Un_assoc del: postBundles.simps)
qed

lemma normalize_falsy:
  "user_maxBundles config = None \<or> user_maxBundles config = Some 0 \<Longrightarrow>
   maxBundles (normalizeUserConfig join cwd config) = - 1"
  by (auto simp: normalizeUserConfig_def js_or_def)

text \<open>
  Claim C10. A user configuration whose \<^verbatim>\<open>maxBundles\<close> is missing or 0 is normalised to
  \<^verbatim>\<open>maxBundles = -1\<close>, and under that configuration uploads to a store never evict: every
  bundle is appended, so the sequence is the old one followed by all the new bundles, and
  no file is removed.
\<close>

theorem falsy_maxBundles_never_evicts:
  assumes "user_maxBundles config = None \<or> user_maxBundles config = Some 0"
    and "map_of (stores (db s)) sid = Some st" "store_id st = sid" "accessKey st \<noteq> []"
    and "\<forall>r \<in> set reqs. req_storeId r = sid \<and> req_accessKey r = Some (accessKey st)"
  shows "maxBundles (normalizeUserConfig join cwd config) = - 1
    \<and> fst (postBundles (normalizeUserConfig join cwd config) stringify reqs s)
        = Inr (map (\<lambda>r. Status201 (bundleOf r)) reqs)
    \<and> map_of (stores (db (snd (postBundles (normalizeUserConfig join cwd config) stringify reqs s)))) sid
        = Some (st\<lparr>bundles := bundles st @ map bundleOf reqs\<rparr>)
    \<and> files s \<subseteq> files (snd (postBundles (normalizeUserConfig join cwd config) stringify reqs s))"
  using no_eviction_general [OF normalize_falsy [OF assms(1)] assms(2-5), of join cwd stringify]
    normalize_falsy [OF assms(1), of join cwd]
  by auto

theorem falsy_maxBundles_never_evicts_witness:
  "maxBundles (ex_config (Some 0)) = - 1
   \<and> fst (postBundles (ex_config (Some 0)) ex_stringify [ex_req1, ex_req2, ex_req3] ex_state)
       = Inr [Status201 (bundleOf ex_req1), Status201 (bundleOf ex_req2), Status201 (bundleOf ex_req3)]
   \<and> map_of (stores (db (snd (postBundles (ex_config (Some 0)) ex_stringify
          [ex_req1, ex_req2, ex_req3] ex_state)))) ''empty''
       = Some (ex_emptyStore\<lparr>bundles := [bundleOf ex_req1, bundleOf ex_req2, bundleOf ex_req3]\<rparr>)"
proof -
  have a: "user_maxBundles (ex_userConfig (Some 0)) = None
           \<or> user_maxBundles (ex_userConfig (Some 0)) = Some 0"
    by (simp add: ex_userConfig_def)
  have b: "map_of (stores (db ex_state)) ''empty'' = Some ex_emptyStore"
    by (simp add: ex_state_def)
  have c: "store_id ex_emptyStore = ''empty''" "accessKey ex_emptyStore \<noteq> []"
    by (simp_all add: ex_emptyStore_def)
  have d: "\<forall>r \<in> set [ex_req1, ex_req2, ex_req3].
             req_storeId r = ''empty'' \<and> req_accessKey r = Some (accessKey ex_emptyStore)"
    by (simp add: ex_req1_def ex_req2_def ex_req3_def ex_emptyStore_def)
  show ?thesis
    using falsy_maxBundles_never_evicts [OF a b c d, of ex_join "''/srv''" ex_stringify]
    by (simp add: ex_config_def ex_emptyStore_def)
qed

text \<open>
  Claim C1, amended to a limit of at least one. Uploads into a store that starts empty, with
  \<^verbatim>\<open>maxBundles = N \<ge> 1\<close> and generated ids that are pairwise distinct, all succeed; the
  store then holds the last \<open>N\<close> uploaded bundles in upload order (exactly \<open>N\<close> of them
  after more than \<open>N\<close> uploads), and the bundle file and source map file of every earlier
  bundle are gone. The statement holds for every prefix of the uploads as well. Its last
  part is the single step: on a store that is full, \<open>addBundleToStore\<close> drops the bundle at
  index 0, whatever its platform and that of the new bundle, removes its two files and
  appends the new bundle.
\<close>

theorem retention_keeps_newest:
  assumes "1 \<le> maxBundles cfg"
    and "map_of (stores (db s)) sid = Some st" "bundles st = []" "store_id st = sid"
      "accessKey st \<noteq> []"
    and "\<forall>r \<in> set reqs. req_storeId r = sid \<and> req_accessKey r = Some (accessKey st)"
    and "distinct (map uuid_bundle reqs @ map uuid_sourcemap reqs)"
  shows "fst (postBundles cfg stringify reqs s) = Inr (map (\<lambda>r. Status201 (bundleOf r)) reqs)
    \<and> map_of (stores (db (snd (postBundles cfg stringify reqs s)))) sid
        = Some (st\<lparr>bundles := drop (length reqs - nat (maxBundles cfg)) (map bundleOf reqs)\<rparr>)
    \<and> (maxBundles cfg < int (length reqs) \<longrightarrow>
          length (drop (length reqs - nat (maxBundles cfg)) (map bundleOf reqs)) = nat (maxBundles cfg))
    \<and> (\<forall>b \<in> set (take (length reqs - nat (maxBundles cfg)) (map bundleOf reqs)).
          getPathToBundle cfg (bundle_id b) \<notin> files (snd (postBundles cfg stringify reqs s))
          \<and> getPathToSourceMap cfg (sourceMap b) \<notin> files (snd (postBundles cfg stringify reqs s)))
    \<and> (map_of (stores (db s')) (store_id st') = Some st' \<and> bundles st' = oldest # rest
          \<and> maxBundles cfg \<le> int (length (bundles st'))
          \<and> bundle_id oldest \<notin> bundle_id ` set rest \<longrightarrow>
        fst (addBundleToStore cfg stringify st' new_bundle s') = Inr new_bundle
        \<and> map_of (stores (db (snd (addBundleToStore cfg stringify st' new_bundle s')))) (store_id st')
            = Some (st'\<lparr>bundles := rest @ [new_bundle]\<rparr>)
        \<and> getPathToBundle cfg (bundle_id oldest)
            \<notin> files (snd (addBundleToStore cfg stringify st' new_bundle s'))
        \<and> getPathToSourceMap cfg (sourceMap oldest)
            \<notin> files (snd (addBundleToStore cfg stringify st' new_bundle s')))"
proof -
  have ids: "map bundle_id (map bundleOf reqs) = map uuid_bundle reqs"
    "map sourceMap (map bundleOf reqs) = map uuid_sourcemap reqs"
    by (simp_all add: bundleOf_def)
  have len: "int (length (bundles st)) \<le> maxBundles cfg"
    using assms(1,3) by simp
  have dist: "distinct (map bundle_id (bundles st @ map bundleOf reqs)
                @ map sourceMap (bundles st @ map bundleOf reqs))"
    using assms(7) by (simp add: assms(3) ids del: map_map)
  note seq = retention_general [OF assms(1,2,4,5,6) len dist, of stringify]
  have step: "map_of (stores (db s')) (store_id st') = Some st' \<and> bundles st' = oldest # rest
          \<and> maxBundles cfg \<le> int (length (bundles st'))
          \<and> bundle_id oldest \<notin> bundle_id ` set rest \<longrightarrow>
        fst (addBundleToStore cfg stringify st' new_bundle s') = Inr new_bundle
        \<and> map_of (stores (db (snd (addBundleToStore cfg stringify st' new_bundle s')))) (store_id st')
            = Some (st'\<lparr>bundles := rest @ [new_bundle]\<rparr>)
        \<and> getPathToBundle cfg (bundle_id oldest)
            \<notin> files (snd (addBundleToStore cfg stringify st' new_bundle s'))
        \<and> getPathToSourceMap cfg (sourceMap oldest)
            \<notin> files (snd (addBundleToStore cfg stringify st' new_bundle s'))"
  proof (intro impI, elim conjE)
    assume h: "map_of (stores (db s')) (store_id st') = Some st'" "bundles st' = oldest # rest"
      "maxBundles cfg \<le> int (length (bundles st'))" "bundle_id oldest \<notin> bundle_id ` set rest"
    have lim: "maxBundles cfg \<noteq> - 1" using assms(1) by simp
    note ev = addBundleToStore_eviction [OF h(1) lim h(3) h(2), of stringify new_bundle]
    show "fst (addBundleToStore cfg stringify st' new_bundle s') = Inr new_bundle
        \<and> map_of (stores (db (snd (addBundleToStore cfg stringify st' new_bundle s')))) (store_id st')
            = Some (st'\<lparr>bundles := rest @ [new_bundle]\<rparr>)
        \<and> getPathToBundle cfg (bundle_id oldest)
            \<notin> files (snd (addBundleToStore cfg stringify st' new_bundle s'))
        \<and> getPathToSourceMap cfg (sourceMap oldest)
            \<notin> files (snd (addBundleToStore cfg stringify st' new_bundle s'))"
      using ev by (simp add: filter_other_ids [OF h(4)])
  qed
  have count: "maxBundles cfg < int (length reqs) \<longrightarrow>
          length (drop (length reqs - nat (maxBundles cfg)) (map bundleOf reqs)) = nat (maxBundles cfg)"
    using assms(1) by auto
  show ?thesis
    using seq step count by (simp add: assms(3))
qed


theorem retention_keeps_newest_witness:
  "fst (postBundles (ex_config (Some 2)) ex_stringify [ex_req1, ex_req2, ex_req3] ex_state)
     = Inr [Status201 (bundleOf ex_req1), Status201 (bundleOf ex_req2), Status201 (bundleOf ex_req3)]
   \<and> map_of (stores (db (snd (postBundles (ex_config (Some 2)) ex_stringify
          [ex_req1, ex_req2, ex_req3] ex_state)))) ''empty''
       = Some (ex_emptyStore\<lparr>bundles := [bundleOf ex_req2, bundleOf ex_req3]\<rparr>)
   \<and> Path ''store/bundles'' ''b1''
       \<notin> files (snd (postBundles (ex_config (Some 2)) ex_stringify [ex_req1, ex_req2, ex_req3] ex_state))
   \<and> Path ''store/sourcemaps'' ''m1''
       \<notin> files (snd (postBundles (ex_config (Some 2)) ex_stringify [ex_req1, ex_req2, ex_req3] ex_state))
   \<and> map_of (stores (db (snd (addBundleToStore (ex_config (Some 2)) ex_stringify ex_store
          (bundleOf ex_req2) ex_state)))) ''acme''
       = Some (ex_store\<lparr>bundles := [ex_androidB, ex_iosC, bundleOf ex_req2]\<rparr>)
   \<and> platform ex_androidA \<noteq> platform (bundleOf ex_req2)"
proof -
  have cfg: "maxBundles (ex_config (Some 2)) = 2"
    "getPathToBundle (ex_config (Some 2)) ''b1'' = Path ''store/bundles'' ''b1''"
    "getPathToSourceMap (ex_config (Some 2)) ''m1'' = Path ''store/sourcemaps'' ''m1''"
    by (simp_all add: ex_config_def ex_userConfig_def normalizeUserConfig_def js_or_def
          truthy_string_def ex_join_def getPathToBundle_def getPathToSourceMap_def)
  have a: "1 \<le> maxBundles (ex_config (Some 2))"
    by (simp add: cfg)
  have b: "map_of (stores (db ex_state)) ''empty'' = Some ex_emptyStore"
    by (simp add: ex_state_def)
  have c: "bundles ex_emptyStore = []" "store_id ex_emptyStore = ''empty''"
    "accessKey ex_emptyStore \<noteq> []"
    by (simp_all add: ex_emptyStore_def)
  have d: "\<forall>r \<in> set [ex_req1, ex_req2, ex_req3].
             req_storeId r = ''empty'' \<and> req_accessKey r = Some (accessKey ex_emptyStore)"
    by (simp add: ex_req1_def ex_req2_def ex_req3_def ex_emptyStore_def)
  have e: "distinct (map uuid_bundle [ex_req1, ex_req2, ex_req3]
                     @ map uuid_sourcemap [ex_req1, ex_req2, ex_req3])"
    by (simp add: ex_req1_def ex_req2_def ex_req3_def)
  have f: "map_of (stores (db ex_state)) (store_id ex_store) = Some ex_store
           \<and> bundles ex_store = ex_androidA # [ex_androidB, ex_iosC]
           \<and> maxBundles (ex_config (Some 2)) \<le> int (length (bundles ex_store))
           \<and> bundle_id ex_androidA \<notin> bundle_id ` set [ex_androidB, ex_iosC]"
    by (simp add: cfg ex_state_def ex_store_def ex_androidA_def ex_androidB_def ex_iosC_def)
  have g: "platform ex_androidA \<noteq> platform (bundleOf ex_req2)"
    by (simp add: ex_androidA_def bundleOf_def ex_req2_def)
  have h: "store_id ex_store = ''acme''"
    by (simp add: ex_store_def)
  have i: "take (length [ex_req1, ex_req2, ex_req3] - nat (maxBundles (ex_config (Some 2))))
             (map bundleOf [ex_req1, ex_req2, ex_req3]) = [bundleOf ex_req1]"
    "drop (length [ex_req1, ex_req2, ex_req3] - nat (maxBundles (ex_config (Some 2))))
             (map bundleOf [ex_req1, ex_req2, ex_req3]) = [bundleOf ex_req2, bundleOf ex_req3]"
    by (simp_all add: cfg)
  have j: "bundle_id (bundleOf ex_req1) = ''b1''" "sourceMap (bundleOf ex_req1) = ''m1''"
    by (simp_all add: bundleOf_def ex_req1_def)
  show ?thesis
    using retention_keeps_newest [OF a b c d e, where stringify = ex_stringify
        and s' = ex_state and st' = ex_store and oldest = ex_androidA
        and rest = "[ex_androidB, ex_iosC]" and new_bundle = "bundleOf ex_req2"] f g
    unfolding i
    by (simp add: h j cfg)
qed

text \<open>
  Claim C1 as stated fails at \<open>N = 0\<close>: a user configuration with \<^verbatim>\<open>maxBundles: 0\<close> is
  normalised to \<open>-1\<close>, and after one upload the store holds one bundle, not none. With 0
  written into the normalised configuration itself, the first upload into an empty store
  throws.
\<close>

theorem retention_zero_counterexample:
  "maxBundles (ex_config (Some 0)) = - 1
   \<and> fst (postBundles (ex_config (Some 0)) ex_stringify [ex_req1] ex_state)
       = Inr [Status201 (bundleOf ex_req1)]
   \<and> map_of (stores (db (snd (postBundles (ex_config (Some 0)) ex_stringify [ex_req1] ex_state))))
        ''empty''
       = Some (ex_emptyStore\<lparr>bundles := [bundleOf ex_req1]\<rparr>)
   \<and> fst (postBundles ((ex_config (Some 0))\<lparr>maxBundles := 0\<rparr>) ex_stringify [ex_req1] ex_state)
       = Inl TypeError"
proof -
  have cfg: "maxBundles (ex_config (Some 0)) = - 1"
    by (simp add: ex_config_def ex_userConfig_def normalizeUserConfig_def js_or_def)
  have b: "map_of (stores (db ex_state)) ''empty'' = Some ex_emptyStore"
    by (simp add: ex_state_def)
  have c: "store_id ex_emptyStore = ''empty''" "accessKey ex_emptyStore \<noteq> []"
    by (simp_all add: ex_emptyStore_def)
  have d: "\<forall>r \<in> set [ex_req1].
             req_storeId r = ''empty'' \<and> req_accessKey r = Some (accessKey ex_emptyStore)"
    by (simp add: ex_req1_def ex_emptyStore_def)
  have b': "map_of (stores (db ex_state)) (req_storeId ex_req1) = Some ex_emptyStore"
    by (simp add: ex_state_def ex_req1_def)
  have k: "req_accessKey ex_req1 = Some (accessKey ex_emptyStore)"
    by (simp add: ex_req1_def ex_emptyStore_def)
  have zero: "fst (postBundle ((ex_config (Some 0))\<lparr>maxBundles := 0\<rparr>) ex_stringify ex_req1 ex_state)
                = Inl TypeError"
    by (simp add: postBundle_authorized [OF b' k c(2)] addBundleToStore_def andThen_def
          throw_def ex_emptyStore_def)
  have "fst (postBundles ((ex_config (Some 0))\<lparr>maxBundles := 0\<rparr>) ex_stringify [ex_req1] ex_state)
                = Inl TypeError"
    using zero
    by (cases "postBundle ((ex_config (Some 0))\<lparr>maxBundles := 0\<rparr>) ex_stringify ex_req1 ex_state")
       (simp add: andThen_def)
  then show ?thesis
    using no_eviction_general [OF cfg b c d, of ex_stringify]
    by (simp add: cfg ex_emptyStore_def del: postBundles.simps)
qed

section \<open>Symbolication\<close>

lemma mapE_Inr:
  "mapE f xs = Inr ys \<longleftrightarrow> length ys = length xs \<and> (\<forall>i < length xs. f (xs ! i) = Inr (ys ! i))"
proof (induction xs arbitrary: ys)
  case Nil
  then show ?case by auto
next
  case (Cons x xs)
  show ?case
  proof (cases "f x")
    case (Inl e)
    then show ?thesis by (fastforce simp: nth_Cons split: nat.splits)
  next
    case (Inr y)
    show ?thesis
    proof (cases "mapE f xs")
      case (Inl e)
      have "\<not> (length ys = Suc (length xs) \<and> (\<forall>i < Suc (length xs). f ((x # xs) ! i) = Inr (ys ! i)))"
      proof
        assume h: "length ys = Suc (length xs) \<and> (\<forall>i < Suc (length xs). f ((x # xs) ! i) = Inr (ys ! i))"
        then obtain y' ys' where ys: "ys = y' # ys'" by (cases ys) auto
        have "length ys' = length xs \<and> (\<forall>i < length xs. f (xs ! i) = Inr (ys' ! i))"
          using h ys by auto
        then have "mapE f xs = Inr ys'" using Cons.IH by blast
        then show False using Inl by simp
      qed
      then show ?thesis using Inl Inr by simp
    next
      case (Inr zs)
      note zs = Inr
      have zs': "length zs = length xs \<and> (\<forall>i < length xs. f (xs ! i) = Inr (zs ! i))"
        using Cons.IH zs by blast
      show ?thesis
      proof
        assume "mapE f (x # xs) = Inr ys"
        then have "ys = y # zs" using \<open>f x = Inr y\<close> zs by simp
        then show "length ys = length (x # xs) \<and> (\<forall>i < length (x # xs). f ((x # xs) ! i) = Inr (ys ! i))"
          using zs' \<open>f x = Inr y\<close> by (auto simp: nth_Cons split: nat.splits)
      next
        assume h: "length ys = length (x # xs) \<and> (\<forall>i < length (x # xs). f ((x # xs) ! i) = Inr (ys ! i))"
        then obtain y' ys' where ys: "ys = y' # ys'" by (cases ys) auto
        have "f x = Inr y'" using h ys by auto
        then have y': "y' = y" using \<open>f x = Inr y\<close> by simp
        have "length ys' = length xs \<and> (\<forall>i < length xs. f (xs ! i) = Inr (ys' ! i))"
          using h ys by auto
        then have "mapE f xs = Inr ys'" using Cons.IH by blast
        then show "mapE f (x # xs) = Inr ys"
          using \<open>f x = Inr y\<close> ys y' by simp
      qed
    qed
  qed
qed

lemma mapE_total:
  "(\<forall>x \<in> set xs. \<exists>y. f x = Inr y) \<Longrightarrow> \<exists>ys. mapE f xs = Inr ys"
  by (induction xs) auto

lemma symbolicateFrame_skip:
  "frame_file fr = None \<or> \<not> startsWith (the (frame_file fr)) ''http''
     \<or> column fr = None \<or> column fr = Some 0 \<or> lineNumber fr = None \<or> lineNumber fr = Some 0 \<Longrightarrow>
   symbolicateFrame consumer fr = Inr fr"
  by (auto simp: symbolicateFrame_def truthy_string_def truthy_number_def)

lemma symbolicateFrame_replace:
  "frame_file fr = Some f \<Longrightarrow> startsWith f ''http'' \<Longrightarrow> lineNumber fr = Some l \<Longrightarrow> l \<noteq> 0 \<Longrightarrow>
   column fr = Some c \<Longrightarrow> c \<noteq> 0 \<Longrightarrow>
   symbolicateFrame consumer fr =
     (case consumer l c of
        Inl e \<Rightarrow> Inl e
      | Inr pos \<Rightarrow> Inr \<lparr>arguments = arguments fr, column = pos_column pos,
                        frame_file = pos_source pos, lineNumber = pos_line pos,
                        methodName = methodName fr\<rparr>)"
  by (auto simp: symbolicateFrame_def truthy_string_def truthy_number_def startsWith_def)

lemma symbolicateFrame_total:
  "(\<forall>l c. lineNumber fr = Some l \<longrightarrow> column fr = Some c \<longrightarrow> (\<exists>pos. consumer l c = Inr pos)) \<Longrightarrow>
   \<exists>y. symbolicateFrame consumer fr = Inr y"
  by (auto simp: symbolicateFrame_def truthy_number_def split: option.splits sum.splits)

lemma symbolicate_total:
  assumes "newConsumer mapText = Inr consumer"
    and "\<forall>fr \<in> set stack. \<forall>l c. lineNumber fr = Some l \<longrightarrow> column fr = Some c \<longrightarrow>
           (\<exists>pos. consumer l c = Inr pos)"
  shows "\<exists>out. symbolicate newConsumer stack mapText = Inr out"
  using assms mapE_total [of stack "symbolicateFrame consumer"] symbolicateFrame_total [of _ consumer]
  by (simp add: symbolicate_def) blast

lemma symbolicate_Inr:
  assumes "newConsumer mapText = Inr consumer" "symbolicate newConsumer stack mapText = Inr out"
  shows "length out = length stack"
    and "i < length stack \<Longrightarrow> symbolicateFrame consumer (stack ! i) = Inr (out ! i)"
  using assms by (simp_all add: symbolicate_def mapE_Inr)

text \<open>
  A frame whose file begins with \<^verbatim>\<open>http\<close> and whose line number and column number are
  present and not 0 is replaced, in the stack that \<open>symbolicate\<close> returns, by the frame whose
  file, line and column are what the consumer's lookup at that line and column returns and
  whose method name and arguments are those of the input frame. \<open>symbolicate\<close> does return
  a stack when the source map parses and no lookup throws.
\<close>

theorem symbolicate_replaces_position:
  assumes "newConsumer mapText = Inr consumer" and "i < length stack"
    and "frame_file (stack ! i) = Some f" "startsWith f ''http''"
    and "lineNumber (stack ! i) = Some l" "l \<noteq> 0"
    and "column (stack ! i) = Some c" "c \<noteq> 0"
  shows "(\<forall>out. symbolicate newConsumer stack mapText = Inr out \<longrightarrow>
            (\<exists>pos. consumer l c = Inr pos
               \<and> out ! i = \<lparr>arguments = arguments (stack ! i), column = pos_column pos,
                             frame_file = pos_source pos, lineNumber = pos_line pos,
                             methodName = methodName (stack ! i)\<rparr>))
    \<and> ((\<forall>fr \<in> set stack. \<forall>l' c'. lineNumber fr = Some l' \<longrightarrow> column fr = Some c' \<longrightarrow>
            (\<exists>pos. consumer l' c' = Inr pos)) \<longrightarrow>
        (\<exists>out. symbolicate newConsumer stack mapText = Inr out))"
proof (intro conjI allI impI)
  fix out assume out: "symbolicate newConsumer stack mapText = Inr out"
  have "symbolicateFrame consumer (stack ! i) = Inr (out ! i)"
    by (rule symbolicate_Inr(2) [OF assms(1) out assms(2)])
  then show "\<exists>pos. consumer l c = Inr pos
               \<and> out ! i = \<lparr>arguments = arguments (stack ! i), column = pos_column pos,
                             frame_file = pos_source pos, lineNumber = pos_line pos,
                             methodName = methodName (stack ! i)\<rparr>"
    unfolding symbolicateFrame_replace [OF assms(3-8)]
    by (cases "consumer l c") auto
next
  assume "\<forall>fr \<in> set stack. \<forall>l' c'. lineNumber fr = Some l' \<longrightarrow> column fr = Some c' \<longrightarrow>
            (\<exists>pos. consumer l' c' = Inr pos)"
  then show "\<exists>out. symbolicate newConsumer stack mapText = Inr out"
    using symbolicate_total [of newConsumer mapText consumer stack] assms(1) by blast
qed

text \<open>
  Claim C4, amended to the test the code makes. The stack that \<open>symbolicate\<close> returns has
  the length of the input, and at each index the input frame itself when that frame has no
  file, a file that does not begin with the characters \<^verbatim>\<open>http\<close>, no line number or no
  column number. \<open>symbolicate\<close> does return a stack when the source map parses and no
  lookup throws.
\<close>

theorem symbolicate_passes_other_frames:
  "(symbolicate newConsumer stack mapText = Inr out \<longrightarrow>
      length out = length stack
      \<and> (\<forall>i < length stack.
            frame_file (stack ! i) = None \<or> \<not> startsWith (the (frame_file (stack ! i))) ''http''
            \<or> column (stack ! i) = None \<or> lineNumber (stack ! i) = None \<longrightarrow>
            out ! i = stack ! i))
   \<and> (newConsumer mapText = Inr consumer
        \<and> (\<forall>fr \<in> set stack. \<forall>l c. lineNumber fr = Some l \<longrightarrow> column fr = Some c \<longrightarrow>
              (\<exists>pos. consumer l c = Inr pos)) \<longrightarrow>
      (\<exists>out'. symbolicate newConsumer stack mapText = Inr out'))"
proof (intro conjI impI)
  assume out: "symbolicate newConsumer stack mapText = Inr out"
  then obtain consumer' where c: "newConsumer mapText = Inr consumer'"
    by (cases "newConsumer mapText") (simp_all add: symbolicate_def)
  note r = symbolicate_Inr [OF c out]
  show "length out = length stack" by (rule r(1))
  show "\<forall>i < length stack.
            frame_file (stack ! i) = None \<or> \<not> startsWith (the (frame_file (stack ! i))) ''http''
            \<or> column (stack ! i) = None \<or> lineNumber (stack ! i) = None \<longrightarrow>
            out ! i = stack ! i"
  proof (intro allI impI)
    fix i assume i: "i < length stack"
      and "frame_file (stack ! i) = None \<or> \<not> startsWith (the (frame_file (stack ! i))) ''http''
            \<or> column (stack ! i) = None \<or> lineNumber (stack ! i) = None"
    then have skip: "frame_file (stack ! i) = None
            \<or> \<not> startsWith (the (frame_file (stack ! i))) ''http''
            \<or> column (stack ! i) = None \<or> column (stack ! i) = Some 0
            \<or> lineNumber (stack ! i) = None \<or> lineNumber (stack ! i) = Some 0"
      by blast
    show "out ! i = stack ! i"
      using r(2) [OF i] symbolicateFrame_skip [OF skip, of consumer'] by simp
  qed
next
  assume "newConsumer mapText = Inr consumer
        \<and> (\<forall>fr \<in> set stack. \<forall>l c. lineNumber fr = Some l \<longrightarrow> column fr = Some c \<longrightarrow>
              (\<exists>pos. consumer l c = Inr pos))"
  then show "\<exists>out'. symbolicate newConsumer stack mapText = Inr out'"
    using symbolicate_total by blast
qed

lemmas ex_frame_defs = ex_stack_def ex_frame_def ex_nativeFrame_def ex_bundleUrl_def
  ex_symbolicated_def ex_consumer_def ex_newConsumer_def

lemma ex_stack_symbolicated:
  "symbolicate ex_newConsumer ex_stack ''{}''
     = Inr [ex_nativeFrame, ex_symbolicated, ex_frame ''[native code]'' 3 7]"
  by (simp add: symbolicate_def symbolicateFrame_def truthy_string_def truthy_number_def
        startsWith_def ex_frame_defs)

theorem symbolicate_replaces_position_witness:
  "symbolicate ex_newConsumer ex_stack ''{}''
     = Inr [ex_nativeFrame, ex_symbolicated, ex_frame ''[native code]'' 3 7]
   \<and> [ex_nativeFrame, ex_symbolicated, ex_frame ''[native code]'' 3 7] ! 1
     = \<lparr>arguments = arguments (ex_stack ! 1), column = Some 16, frame_file = Some ''foo/App.js'',
        lineNumber = Some 40, methodName = methodName (ex_stack ! 1)\<rparr>"
proof -
  have a: "ex_newConsumer ''{}'' = Inr ex_consumer" "1 < length ex_stack"
    "frame_file (ex_stack ! 1) = Some ex_bundleUrl" "startsWith ex_bundleUrl ''http''"
    "lineNumber (ex_stack ! 1) = Some 87771" "(87771::int) \<noteq> 0"
    "column (ex_stack ! 1) = Some 24" "(24::int) \<noteq> 0"
    by (simp_all add: ex_newConsumer_def ex_stack_def ex_frame_def startsWith_def ex_bundleUrl_def)
  have pos: "ex_consumer 87771 24
      = Inr \<lparr>pos_source = Some ''foo/App.js'', pos_line = Some 40, pos_column = Some 16,
              pos_name = Some ''handlePress''\<rparr>"
    by (simp add: ex_consumer_def)
  show ?thesis
    using symbolicate_replaces_position [where newConsumer = ex_newConsumer
        and mapText = "''{}''" and consumer = ex_consumer and stack = ex_stack and i = 1
        and f = ex_bundleUrl and l = 87771 and c = 24] a ex_stack_symbolicated pos
    by auto
qed

text \<open>
  Claim C3. A frame at column 0 has a file that begins with an HTTP scheme, a line number
  and a column number, and the consumer has a mapping for its position; \<open>symbolicate\<close>
  returns the frame as it is, because the guard tests the column for truthiness and 0 is
  falsy.
\<close>

theorem symbolicate_skips_column_zero:
  "symbolicate ex_newConsumer [ex_frame ex_bundleUrl 1 0] ''{}'' = Inr [ex_frame ex_bundleUrl 1 0]
   \<and> column (ex_frame ex_bundleUrl 1 0) = Some 0
   \<and> ex_consumer 1 0
       = Inr \<lparr>pos_source = Some ''foo/App.js'', pos_line = Some 40, pos_column = Some 16,
               pos_name = Some ''handlePress''\<rparr>
   \<and> frame_file (ex_frame ex_bundleUrl 1 0) \<noteq> Some ''foo/App.js''"
  by (simp add: symbolicate_def symbolicateFrame_def truthy_string_def truthy_number_def
        startsWith_def ex_frame_defs)

theorem symbolicate_passes_other_frames_witness:
  "symbolicate ex_newConsumer ex_stack ''{}''
     = Inr [ex_nativeFrame, ex_symbolicated, ex_frame ''[native code]'' 3 7]
   \<and> length [ex_nativeFrame, ex_symbolicated, ex_frame ''[native code]'' 3 7] = length ex_stack
   \<and> [ex_nativeFrame, ex_symbolicated, ex_frame ''[native code]'' 3 7] ! 0 = ex_stack ! 0
   \<and> [ex_nativeFrame, ex_symbolicated, ex_frame ''[native code]'' 3 7] ! 2 = ex_stack ! 2"
proof -
  have a: "ex_newConsumer ''{}'' = Inr ex_consumer
        \<and> (\<forall>fr \<in> set ex_stack. \<forall>l c. lineNumber fr = Some l \<longrightarrow> column fr = Some c \<longrightarrow>
              (\<exists>pos. ex_consumer l c = Inr pos))"
    by (simp add: ex_frame_defs)
  have b: "frame_file (ex_stack ! 0) = None"
    "\<not> startsWith (the (frame_file (ex_stack ! 2))) ''http''"
    "(0::nat) < length ex_stack" "(2::nat) < length ex_stack"
    by (simp_all add: ex_frame_defs startsWith_def)
  show ?thesis
    using symbolicate_passes_other_frames [where newConsumer = ex_newConsumer and stack = ex_stack
        and mapText = "''{}''" and consumer = ex_consumer
        and out = "[ex_nativeFrame, ex_symbolicated, ex_frame ''[native code]'' 3 7]"]
      ex_stack_symbolicated a b
    by blast
qed

text \<open>
  Claim C4 as stated fails on a frame whose file is the plain name \<^verbatim>\<open>httpClient.js\<close>: it is
  no HTTP(S) reference, yet it begins with \<^verbatim>\<open>http\<close> and the frame is replaced.
\<close>

theorem symbolicate_http_prefix_counterexample:
  "symbolicate ex_newConsumer [ex_frame ''httpClient.js'' 10 5] ''{}'' = Inr [ex_symbolicated]
   \<and> ex_symbolicated \<noteq> ex_frame ''httpClient.js'' 10 5"
  by (simp add: symbolicate_def symbolicateFrame_def truthy_string_def truthy_number_def
        startsWith_def ex_frame_defs)

text \<open>
  Claim C7. On a stack whose first frame has no file and whose second frame has an HTTP
  file, the handler of \<^verbatim>\<open>POST /symbolicate\<close> throws a \<open>TypeError\<close> at the first frame and
  never reaches the second one, from which alone it extracts the reference.
\<close>

theorem symbolicate_route_frame_without_file:
  "bundleReferenceOfStack [ex_nativeFrame, ex_frame ex_bundleUrl 87771 24] = Inl TypeError
   \<and> bundleReferenceOfStack [ex_frame ex_bundleUrl 87771 24]
       = Inr \<lparr>seg_bundleId = ''latest'', seg_platform = ''android'', seg_storeId = ''acme''\<rparr>"
  by (simp add: bundleReferenceOfStack_def bundleUrlOfStack_def fileStartsWithHttp_def
        startsWith_def extractSegmentsFromBundleUrl_def matchHere_def segment_def ex_frame_defs)

section \<open>Asset archives\<close>

lemma foldl_Set_add_first_seen: "foldl Set_add [] xs = rev (remdups (rev xs))"
proof (induction xs rule: rev_induct)
  case Nil
  show ?case by simp
next
  case (snoc x xs)
  then show ?case by (simp add: Set_add_def)
qed

lemma unzipEntries_entries:
  "unzipEntries targetDir (map ZipEntry names) acc s =
     (Inr (foldl Set_add acc (map dirname (filter (\<lambda>n. \<not> endsWithSlash n) names))),
      s\<lparr>files := files s \<union> Path targetDir ` {n \<in> set names. \<not> endsWithSlash n}\<rparr>)"
proof (induction names arbitrary: acc s)
  case Nil
  show ?case by (simp add: return_def)
next
  case (Cons n names)
  show ?case
  proof (cases "endsWithSlash n")
    case True
    have "{x. (x = n \<or> x \<in> set names) \<and> \<not> endsWithSlash x} = {x \<in> set names. \<not> endsWithSlash x}"
      using True by auto
    then show ?thesis using True by (simp add: Cons.IH)
  next
    case False
    have "{x. (x = n \<or> x \<in> set names) \<and> \<not> endsWithSlash x}
            = insert n {x \<in> set names. \<not> endsWithSlash x}"
      using False by auto
    then show ?thesis
      using False by (simp add: Cons.IH andThen_def writeFile_def)
  qed
qed

lemma dirname_scan_tail:
  "(\<forall>i. k < i \<and> i \<le> k + j \<longrightarrow> p ! i \<noteq> CHR ''/'') \<Longrightarrow> 0 < j \<Longrightarrow>
   dirname_scan p (k + j) m = dirname_scan p k False"
proof (induction j arbitrary: m)
  case 0
  then show ?case by simp
next
  case (Suc j)
  have here: "p ! Suc (k + j) \<noteq> CHR ''/''" using Suc.prems(1) by simp
  show ?case
  proof (cases "j = 0")
    case True
    then show ?thesis using here by simp
  next
    case False
    have "dirname_scan p (k + j) False = dirname_scan p k False"
      using Suc.IH [of False] Suc.prems(1) False by simp
    then show ?thesis using here by simp
  qed
qed

lemma dirname_in_directory:
  assumes d: "d \<noteq> []" "CHR ''/'' \<notin> set d" and f: "f \<noteq> []" "CHR ''/'' \<notin> set f"
  shows "dirname (d @ ''/'' @ f) = d"
proof -
  let ?p = "d @ ''/'' @ f"
  obtain k where k: "length d = Suc k" using d(1) by (cases d) auto
  have tail: "\<forall>i. length d < i \<and> i \<le> length d + length f \<longrightarrow> ?p ! i \<noteq> CHR ''/''"
  proof (intro allI impI)
    fix i assume i: "length d < i \<and> i \<le> length d + length f"
    then have "i - length d = Suc (i - Suc (length d))" by linarith
    then have "?p ! i = f ! (i - Suc (length d))"
      using i by (simp add: nth_append)
    moreover have "i - Suc (length d) < length f" using i f(1) by (cases f) auto
    ultimately show "?p ! i \<noteq> CHR ''/''" using f(2) by (metis nth_mem)
  qed
  have "dirname_scan ?p (length d + length f) True = dirname_scan ?p (length d) False"
    using dirname_scan_tail [OF tail] f(1) by simp
  also have "\<dots> = Some (length d)"
    by (simp add: k nth_append)
  finally have scan: "dirname_scan ?p (length ?p - 1) True = Some (length d)" by simp
  have root: "?p ! 0 \<noteq> CHR ''/''"
    using d by (cases d) auto
  show ?thesis
    using scan root d(1) by (simp add: dirname_def k)
qed

lemma topLevel_in_directory:
  "CHR ''/'' \<notin> set d \<Longrightarrow> takeWhile (\<lambda>c. c \<noteq> CHR ''/'') (d @ ''/'' @ f) = d"
  by (induction d) auto


lemma unzipAssets_entries:
  "unzipAssets zipFilePath targetDir (map ZipEntry names) s =
     (Inr (rev (remdups (rev (map dirname (filter (\<lambda>n. \<not> endsWithSlash n) names))))),
      s\<lparr>files := (files s \<union> Path targetDir ` {n \<in> set names. \<not> endsWithSlash n})
                    - {zipFilePath}\<rparr>)"
  by (simp add: unzipAssets_def unzipEntries_entries foldl_Set_add_first_seen shell_rm_def)

text \<open>
  Claim C8, amended to what is collected. For an archive that is read without error,
  \<open>unzipAssets\<close> returns \<^verbatim>\<open>path.dirname\<close> of the entries that do not end in a slash, each
  once, in the order of first occurrence; entries that end in a slash add no name and no
  file, and the archive is removed. When every such entry lies directly in a top-level
  directory (\<^verbatim>\<open>dir/file\<close>), these are the names of the top-level directories.
\<close>

theorem unzipAssets_parent_directories:
  "fst (unzipAssets zipFilePath targetDir (map ZipEntry names) s)
     = Inr (rev (remdups (rev (map dirname (filter (\<lambda>n. \<not> endsWithSlash n) names)))))
   \<and> files (snd (unzipAssets zipFilePath targetDir (map ZipEntry names) s))
     = (files s \<union> Path targetDir ` {n \<in> set names. \<not> endsWithSlash n}) - {zipFilePath}
   \<and> ((\<forall>n \<in> set names. \<not> endsWithSlash n \<longrightarrow>
          (\<exists>d f. n = d @ ''/'' @ f \<and> d \<noteq> [] \<and> CHR ''/'' \<notin> set d \<and> f \<noteq> [] \<and> CHR ''/'' \<notin> set f)) \<longrightarrow>
        fst (unzipAssets zipFilePath targetDir (map ZipEntry names) s)
          = Inr (rev (remdups (rev (map (takeWhile (\<lambda>c. c \<noteq> CHR ''/''))
                                       (filter (\<lambda>n. \<not> endsWithSlash n) names))))))"
proof -
  have flat: "map dirname (filter (\<lambda>n. \<not> endsWithSlash n) names)
        = map (takeWhile (\<lambda>c. c \<noteq> CHR ''/'')) (filter (\<lambda>n. \<not> endsWithSlash n) names)"
    if h: "\<forall>n \<in> set names. \<not> endsWithSlash n \<longrightarrow>
          (\<exists>d f. n = d @ ''/'' @ f \<and> d \<noteq> [] \<and> CHR ''/'' \<notin> set d \<and> f \<noteq> [] \<and> CHR ''/'' \<notin> set f)"
  proof (rule map_cong [OF refl])
    fix n assume "n \<in> set (filter (\<lambda>n. \<not> endsWithSlash n) names)"
    then obtain d f where n: "n = d @ ''/'' @ f" "d \<noteq> []" "CHR ''/'' \<notin> set d" "f \<noteq> []"
        "CHR ''/'' \<notin> set f"
      using h by auto
    show "dirname n = takeWhile (\<lambda>c. c \<noteq> CHR ''/'') n"
      using dirname_in_directory [OF n(2-5)] topLevel_in_directory [OF n(3), of f] n(1) by simp
  qed
  show ?thesis
  proof (intro conjI impI)
    show "fst (unzipAssets zipFilePath targetDir (map ZipEntry names) s)
       = Inr (rev (remdups (rev (map dirname (filter (\<lambda>n. \<not> endsWithSlash n) names)))))"
      by (simp add: unzipAssets_entries)
    show "files (snd (unzipAssets zipFilePath targetDir (map ZipEntry names) s))
       = (files s \<union> Path targetDir ` {n \<in> set names. \<not> endsWithSlash n}) - {zipFilePath}"
      by (simp add: unzipAssets_entries)
    assume "\<forall>n \<in> set names. \<not> endsWithSlash n \<longrightarrow>
          (\<exists>d f. n = d @ ''/'' @ f \<and> d \<noteq> [] \<and> CHR ''/'' \<notin> set d \<and> f \<noteq> [] \<and> CHR ''/'' \<notin> set f)"
    then show "fst (unzipAssets zipFilePath targetDir (map ZipEntry names) s)
          = Inr (rev (remdups (rev (map (takeWhile (\<lambda>c. c \<noteq> CHR ''/''))
                                       (filter (\<lambda>n. \<not> endsWithSlash n) names)))))"
      by (simp only: unzipAssets_entries fst_conv flat)
  qed
qed

theorem unzipAssets_parent_directories_witness:
  "fst (unzipAssets ex_zipFilePath ''store/assets''
          (map ZipEntry [''47ce/'', ''47ce/logo.png'', ''70d6/img.png'', ''47ce/logo@2x.png'']) ex_state)
     = Inr [''47ce'', ''70d6'']
   \<and> files (snd (unzipAssets ex_zipFilePath ''store/assets''
          (map ZipEntry [''47ce/'', ''47ce/logo.png'', ''70d6/img.png'', ''47ce/logo@2x.png'']) ex_state))
     = {Path ''store/assets'' ''47ce/logo.png'', Path ''store/assets'' ''70d6/img.png'',
        Path ''store/assets'' ''47ce/logo@2x.png''}"
proof -
  have a: "\<forall>n \<in> set [''47ce/'', ''47ce/logo.png'', ''70d6/img.png'', ''47ce/logo@2x.png''].
      \<not> endsWithSlash n \<longrightarrow>
        (\<exists>d f. n = d @ ''/'' @ f \<and> d \<noteq> [] \<and> CHR ''/'' \<notin> set d \<and> f \<noteq> [] \<and> CHR ''/'' \<notin> set f)"
  proof -
    have "\<exists>d f. ''47ce/logo.png'' = d @ ''/'' @ f \<and> d \<noteq> [] \<and> CHR ''/'' \<notin> set d \<and> f \<noteq> []
            \<and> CHR ''/'' \<notin> set f"
      by (rule exI [of _ "''47ce''"], rule exI [of _ "''logo.png''"]) simp
    moreover have "\<exists>d f. ''70d6/img.png'' = d @ ''/'' @ f \<and> d \<noteq> [] \<and> CHR ''/'' \<notin> set d \<and> f \<noteq> []
            \<and> CHR ''/'' \<notin> set f"
      by (rule exI [of _ "''70d6''"], rule exI [of _ "''img.png''"]) simp
    moreover have "\<exists>d f. ''47ce/logo@2x.png'' = d @ ''/'' @ f \<and> d \<noteq> [] \<and> CHR ''/'' \<notin> set d
            \<and> f \<noteq> [] \<and> CHR ''/'' \<notin> set f"
      by (rule exI [of _ "''47ce''"], rule exI [of _ "''logo@2x.png''"]) simp
    ultimately show ?thesis
      by (simp add: endsWithSlash_def)
  qed
  have b: "{n \<in> set [''47ce/'', ''47ce/logo.png'', ''70d6/img.png'', ''47ce/logo@2x.png''].
             \<not> endsWithSlash n}
           = {''47ce/logo.png'', ''70d6/img.png'', ''47ce/logo@2x.png''}"
    by (auto simp: endsWithSlash_def)
  note t = unzipAssets_parent_directories [where zipFilePath = ex_zipFilePath
        and targetDir = "''store/assets''" and s = ex_state
        and names = "[''47ce/'', ''47ce/logo.png'', ''70d6/img.png'', ''47ce/logo@2x.png'']"]
  have c: "fst (unzipAssets ex_zipFilePath ''store/assets''
          (map ZipEntry [''47ce/'', ''47ce/logo.png'', ''70d6/img.png'', ''47ce/logo@2x.png'']) ex_state)
     = Inr (rev (remdups (rev (map (takeWhile (\<lambda>c. c \<noteq> CHR ''/''))
          (filter (\<lambda>n. \<not> endsWithSlash n)
             [''47ce/'', ''47ce/logo.png'', ''70d6/img.png'', ''47ce/logo@2x.png''])))))"
    using t a by blast
  have d: "files (snd (unzipAssets ex_zipFilePath ''store/assets''
          (map ZipEntry [''47ce/'', ''47ce/logo.png'', ''70d6/img.png'', ''47ce/logo@2x.png'']) ex_state))
     = (files ex_state \<union> Path ''store/assets''
          ` {n \<in> set [''47ce/'', ''47ce/logo.png'', ''70d6/img.png'', ''47ce/logo@2x.png''].
              \<not> endsWithSlash n}) - {ex_zipFilePath}"
    using t by blast
  have e: "filter (\<lambda>n. \<not> endsWithSlash n)
             [''47ce/'', ''47ce/logo.png'', ''70d6/img.png'', ''47ce/logo@2x.png'']
           = [''47ce/logo.png'', ''70d6/img.png'', ''47ce/logo@2x.png'']"
    by (simp add: endsWithSlash_def)
  show ?thesis
    unfolding c d b e
    by (simp add: ex_state_def ex_zipFilePath_def insert_commute)
qed

lemma dirname_nested: "dirname ''47ce/drawable/logo.png'' = ''47ce/drawable''"
  by code_simp

text \<open>
  Claim C8 as stated fails on an entry in a nested directory: the name returned is the path
  of its parent directory, not the name of its top-level directory.
\<close>

theorem unzipAssets_nested_counterexample:
  "fst (unzipAssets ex_zipFilePath ''store/assets'' (map ZipEntry [''47ce/drawable/logo.png''])
          ex_state)
     = Inr [''47ce/drawable'']
   \<and> takeWhile (\<lambda>c. c \<noteq> CHR ''/'') ''47ce/drawable/logo.png'' = ''47ce''"
proof -
  have "unzipAssets ex_zipFilePath ''store/assets'' (map ZipEntry [''47ce/drawable/logo.png''])
          ex_state
        = (Inr (rev (remdups (rev (map dirname
                  (filter (\<lambda>n. \<not> endsWithSlash n) [''47ce/drawable/logo.png'']))))),
           ex_state\<lparr>files := (files ex_state \<union> Path ''store/assets''
              ` {n \<in> set [''47ce/drawable/logo.png'']. \<not> endsWithSlash n}) - {ex_zipFilePath}\<rparr>)"
    by (rule unzipAssets_entries)
  then show ?thesis
    by (simp add: endsWithSlash_def dirname_nested)
qed

end
